theory Spec2Isabelle
  imports Main "HOL-Library.Extended_Nat" "HOL-Library.AList"
begin

text \<open>
  A shallow embedding of the dispatch engine of ts-typed-function (\<open>src/typed-function.ts\<close>):
  the registry of guards and conversions, the compilation of a class of signatures into
  one callable, and the call itself. State changes are explicit: every operation that
  writes takes the state and returns the new one; exceptions are results on the left.
\<close>

section \<open>Runtime values, type tokens and errors\<close>

text \<open>
  The values the dispatcher sees at run time. JavaScript numbers are doubles; the model
  keeps the integers among them (\<open>Num\<close>), on which multiplication is exact as long as the
  result stays below \<open>2 ^ 53\<close>. \<open>Inst c fs\<close> is an object created by \<open>new c(...)\<close> with
  field values \<open>fs\<close>; \<open>Func\<close> is a function value, \<open>Arr\<close> an array.
\<close>

datatype val =
    Num int
  | Str string
  | Bool bool
  | VNull
  | VUndefined
  | Func string
  | Arr "val list"
  | Inst string "val list"

text \<open>
  A \<open>Type\<close> is the token a guard is registered under: \<open>null\<close>, \<open>undefined\<close>, a constructor
  function (\<open>Number\<close>, \<open>String\<close>, a user class; it has a string \<open>name\<close>), or another object
  without a \<open>name\<close> property. Tokens are compared by identity (\<open>indexOf\<close>, \<open>WeakMap\<close> keys);
  in the model identity is equality of the datatype.
\<close>

datatype Type = Null | Undefined | Ctor string | Sentinel string

text \<open>
  Errors as values. \<open>Error\<close> and \<open>TypeError\<close> carry the message the source gives them.
  \<open>EngineTypeError\<close> is a \<open>TypeError\<close> thrown by the JavaScript engine or by
  \<open>reflect-metadata\<close> itself (destructuring \<open>undefined\<close>, a non-object \<open>WeakMap\<close> key, a
  non-object metadata target); its message depends on the engine.
\<close>

text \<open>
  Modelled from the spec: the constructor \<open>NoMatch\<close> is the dispatch error of the \<open>choose\<close>
  combinator of the \<open>guardtypes\<close> module, which is not among the sources; section 4.4 of
  the specification says it carries the attempted argument types.
\<close>

datatype error =
    Error string
  | TypeError string
  | EngineTypeError
  | NoMatch "string list"

type_synonym Guard = "val \<Rightarrow> bool"
type_synonym Conversion = "val \<Rightarrow> val"

definition I :: "val \<Rightarrow> val" where
  "I x = x"

fun isObject :: "Type \<Rightarrow> bool" where
  "isObject Null = False"
| "isObject Undefined = False"
| "isObject (Ctor n) = True"
| "isObject (Sentinel n) = True"

fun isFunction :: "Type \<Rightarrow> bool" where
  "isFunction (Ctor n) = True"
| "isFunction t = False"

text \<open>\<open>map[key] || ctor\<close>: \<open>null\<close> and \<open>undefined\<close> are falsy, every object is truthy.\<close>

fun orElse :: "Type option \<Rightarrow> Type \<Rightarrow> Type" where
  "orElse None d = d"
| "orElse (Some t) d = (if isObject t then t else d)"

text \<open>\<open>getName\<close> of typed-function.ts.\<close>

fun getName :: "Type \<Rightarrow> string" where
  "getName Null = ''null''"
| "getName Undefined = ''undefined''"
| "getName (Ctor n) = n"
| "getName (Sentinel n) = ''unknown''"

text \<open>
  \<open>x instanceof ctor\<close>, without user-defined inheritance: an instance of class \<open>c\<close> is an
  instance of \<open>c\<close> and of \<open>Object\<close>; primitives are instances of nothing.
\<close>

fun instanceOf :: "val \<Rightarrow> Type \<Rightarrow> bool" where
  "instanceOf (Inst c fs) t = (t = Ctor c \<or> t = Ctor ''Object'')"
| "instanceOf (Arr xs) t = (t = Ctor ''Array'' \<or> t = Ctor ''Object'')"
| "instanceOf (Func f) t = (t = Ctor ''Function'' \<or> t = Ctor ''Object'')"
| "instanceOf v t = False"

section \<open>Guard combinators\<close>

text \<open>
  Modelled from the spec: the module \<open>guardtypes\<close> (\<open>intersect\<close>, \<open>union\<close>, \<open>tuple\<close>,
  \<open>matcher\<close>, \<open>applier\<close>, \<open>choose\<close>) is imported by typed-function.ts but is not among the
  sources. Section 4.1: \<open>intersect(guards)\<close> is true iff every guard accepts the value.
\<close>

fun intersect :: "Guard list \<Rightarrow> Guard" where
  "intersect [] x = True"
| "intersect (g # gs) x = (if g x then intersect gs x else False)"

text \<open>
  Modelled from the spec: section 4.1, \<open>union(guards)\<close> is true iff any guard accepts,
  tested in array order, stopping at the first that does. (\<open>union\<close> in the source; the
  name is taken in HOL.)
\<close>

fun union_guard :: "Guard list \<Rightarrow> Guard" where
  "union_guard [] x = False"
| "union_guard (g # gs) x = (if g x then True else union_guard gs x)"

text \<open>
  Modelled from the spec: section 4.1, \<open>tuple(slotGuards)\<close> takes an argument list and is
  true iff it has as many arguments as there are slot guards and each slot guard accepts
  the argument at its position.
\<close>

fun tuple :: "Guard list \<Rightarrow> val list \<Rightarrow> bool" where
  "tuple [] [] = True"
| "tuple (g # gs) (a # as) = (if g a then tuple gs as else False)"
| "tuple [] (a # as) = False"
| "tuple (g # gs) [] = False"

text \<open>
  Modelled from the spec: section 4.3 step 5, the matcher of a slot finds the first token
  (in set order) whose guard accepts the value and uses its converter. The specification
  does not say what happens when no guard accepts; the model returns \<open>None\<close> there.
\<close>

fun matcher :: "Guard list \<Rightarrow> Conversion list \<Rightarrow> val \<Rightarrow> val option" where
  "matcher (g # gs) (c # cs) x = (if g x then Some (c x) else matcher gs cs x)"
| "matcher gs cs x = None"

text \<open>
  Modelled from the spec: section 4.5, on a match each position with a recorded converter
  has its argument replaced by the converted one, and the other positions are left
  untouched. A slot without conversions has \<open>null\<close> (\<open>None\<close>) for its matcher.
\<close>

fun applier :: "(val \<Rightarrow> val option) option list \<Rightarrow> val list \<Rightarrow> val list option" where
  "applier ms [] = Some []"
| "applier [] (a # as) = Some (a # as)"
| "applier (None # ms) (a # as) =
     (case applier ms as of None \<Rightarrow> None | Some bs \<Rightarrow> Some (a # bs))"
| "applier (Some m # ms) (a # as) =
     (case m a of None \<Rightarrow> None
      | Some b \<Rightarrow> (case applier ms as of None \<Rightarrow> None | Some bs \<Rightarrow> Some (b # bs)))"

text \<open>
  Modelled from the spec: the attempted argument types of section 4.4. The specification
  does not say how a type is named; the model takes what \<open>typeof\<close> gives, and the class
  for an instance or an array.
\<close>

fun typeName :: "val \<Rightarrow> string" where
  "typeName (Num n) = ''number''"
| "typeName (Str s) = ''string''"
| "typeName (Bool b) = ''boolean''"
| "typeName VNull = ''null''"
| "typeName VUndefined = ''undefined''"
| "typeName (Func f) = ''function''"
| "typeName (Arr xs) = ''Array''"
| "typeName (Inst c fs) = c"

text \<open>
  Modelled from the spec: section 4.4, \<open>select(args)\<close> goes through the candidates in
  order and returns the first whose guard accepts the arguments; if none does it fails
  with \<open>NoMatch\<close>, carrying the attempted argument types. (\<open>choose\<close> in the source; the
  name is taken in HOL.)
\<close>

fun choose_alt :: "((val list \<Rightarrow> bool) \<times> 'a) list \<Rightarrow> val list \<Rightarrow> error + 'a" where
  "choose_alt [] args = Inl (NoMatch (map typeName args))"
| "choose_alt ((g, r) # rest) args = (if g args then Inr r else choose_alt rest args)"

section \<open>The registry\<close>

record ConversionMethod =
  fromType :: Type
  convert :: Conversion

record TypedOptions =
  autoadd :: bool

text \<open>
  What reflection gives for a token used as a class: the \<open>META_GUARDS\<close> map (key to type,
  the type \<open>undefined\<close> when the class itself is meant; \<open>None\<close> when there is no metadata),
  the \<open>META_CONVERSIONS\<close> map (key to \<open>fromType\<close> and \<open>toType\<close>) and the static members
  \<open>ctor[key]\<close>. A map is the list of its entries in the order of \<open>for ... in\<close>.
\<close>

record ClassInfo =
  guardMap :: "(string \<times> Type option) list option"
  conversionMap :: "(string \<times> Type \<times> Type) list option"
  staticGuard :: "string \<Rightarrow> Guard"
  staticConvert :: "string \<Rightarrow> Conversion"

text \<open>
  The mutable state: the two \<open>WeakMap\<close>s of a \<open>Typed\<close> instance, and the heap of
  \<open>Parameter\<close> arrays. A \<open>Parameter\<close> is a JavaScript array of tokens held by reference, so
  the model keeps the arrays in a store and a signature holds their addresses;
  \<open>nextArray\<close> is the address the next new array gets.
\<close>

record state =
  guards :: "Type \<rightharpoonup> Guard list"
  conversions :: "Type \<rightharpoonup> ConversionMethod list"
  arrays :: "nat \<Rightarrow> Type list"
  nextArray :: nat

type_synonym Parameter = nat
type_synonym Signature = "Parameter list"
type_synonym SignatureMap = "(string \<times> Signature list) list"

text \<open>\<open>this.guards.get(type) || []\<close> and \<open>this.conversions.get(toType) || []\<close>.\<close>

definition guardsOf :: "state \<Rightarrow> Type \<Rightarrow> Guard list" where
  "guardsOf st t = (case guards st t of None \<Rightarrow> [] | Some gs \<Rightarrow> gs)"

definition conversionsOf :: "state \<Rightarrow> Type \<Rightarrow> ConversionMethod list" where
  "conversionsOf st t = (case conversions st t of None \<Rightarrow> [] | Some cs \<Rightarrow> cs)"

text \<open>
  \<open>_addTypes\<close>. \<open>Reflect.getMetadata\<close> throws on a target that is not an object. Without
  metadata the class gets an \<open>instanceof\<close> guard when \<open>autoadd\<close> is on and the token is a
  function; with metadata every key appends its static method to the guards of its type.
\<close>

definition addGuardKey :: "(Type \<Rightarrow> ClassInfo) \<Rightarrow> Type \<Rightarrow> string \<times> Type option \<Rightarrow> state \<Rightarrow> state" where
  "addGuardKey env ctor kt st =
     (let type = orElse (snd kt) ctor;
          existing = guardsOf st type;
          method = staticGuard (env ctor) (fst kt)
      in st\<lparr>guards := (guards st)(type \<mapsto> existing @ [method])\<rparr>)"

definition addTypes :: "(Type \<Rightarrow> ClassInfo) \<Rightarrow> TypedOptions \<Rightarrow> Type \<Rightarrow> state \<Rightarrow> error + state" where
  "addTypes env options ctor st =
     (if \<not> isObject ctor then Inl EngineTypeError
      else case guardMap (env ctor) of
        None \<Rightarrow>
          if autoadd options \<and> isFunction ctor
          then Inr (st\<lparr>guards := (guards st)(ctor \<mapsto> [\<lambda>x. instanceOf x ctor])\<rparr>)
          else Inr st
      | Some m \<Rightarrow> Inr (fold (addGuardKey env ctor) m st))"

text \<open>
  \<open>_addConversions\<close>. \<open>WeakMap.set\<close> throws on a key that is not an object, which stops the
  loop at that key.
\<close>

fun addConversionKeys :: "(Type \<Rightarrow> ClassInfo) \<Rightarrow> Type \<Rightarrow> (string \<times> Type \<times> Type) list \<Rightarrow> state \<Rightarrow> error + state" where
  "addConversionKeys env ctor [] st = Inr st"
| "addConversionKeys env ctor ((key, from, to) # rest) st =
     (let existing = conversionsOf st to;
          conversion = \<lparr>fromType = from, convert = staticConvert (env ctor) key\<rparr>
      in if \<not> isObject to then Inl EngineTypeError
         else addConversionKeys env ctor rest
                (st\<lparr>conversions := (conversions st)(to \<mapsto> existing @ [conversion])\<rparr>))"

definition addConversions :: "(Type \<Rightarrow> ClassInfo) \<Rightarrow> Type \<Rightarrow> state \<Rightarrow> error + state" where
  "addConversions env ctor st =
     (if \<not> isObject ctor then Inl EngineTypeError
      else addConversionKeys env ctor
             (case conversionMap (env ctor) of None \<Rightarrow> [] | Some m \<Rightarrow> m) st)"

text \<open>\<open>add(...ctors)\<close>: for each class its guards, then its conversions.\<close>

fun add :: "(Type \<Rightarrow> ClassInfo) \<Rightarrow> TypedOptions \<Rightarrow> Type list \<Rightarrow> state \<Rightarrow> error + state" where
  "add env options [] st = Inr st"
| "add env options (c # cs) st =
     (case addTypes env options c st of
        Inl e \<Rightarrow> Inl e
      | Inr st1 \<Rightarrow>
          (case addConversions env c st1 of
             Inl e \<Rightarrow> Inl e
           | Inr st2 \<Rightarrow> add env options cs st2))"

section \<open>The signature decorator\<close>

text \<open>
  \<open>signature(...paramTypes)\<close> of decorators.ts, applied to a class and a key. An element
  of \<open>paramTypes\<close> is a token or an array of tokens. \<open>paramTypes.map(t => Array.isArray(t) ?
  t : [t])\<close> keeps an array that was given, by reference, and makes a new one-element array
  for a token.
\<close>

datatype ParamType = OneType Type | TypeArray Parameter

fun wrapParamTypes :: "ParamType list \<Rightarrow> state \<Rightarrow> Signature \<times> state" where
  "wrapParamTypes [] st = ([], st)"
| "wrapParamTypes (TypeArray p # ts) st =
     (case wrapParamTypes ts st of (sig, st1) \<Rightarrow> (p # sig, st1))"
| "wrapParamTypes (OneType t # ts) st =
     (case wrapParamTypes ts
             (st\<lparr>arrays := (arrays st)(nextArray st := [t]), nextArray := Suc (nextArray st)\<rparr>) of
        (sig, st1) \<Rightarrow> (nextArray st # sig, st1))"

text \<open>
  A JavaScript object lists its keys with the array indices first, in ascending numeric
  order, and the other string keys after them, in insertion order; \<open>for ... in\<close> and the
  spread \<open>{...map}\<close> follow that order. An array index is the canonical decimal string of an
  integer below \<open>2 ^ 32 - 1\<close>. A map is kept as the list of its entries in that order, and
  \<open>setProperty\<close> is \<open>{...map, [key]: v}\<close>: an old key keeps its place, a new index key goes
  among the index keys, any other new key goes last.
\<close>

definition isDigit :: "char \<Rightarrow> bool" where
  "isDigit c \<longleftrightarrow> 48 \<le> (of_char c :: nat) \<and> (of_char c :: nat) \<le> 57"

definition arrayIndex :: "string \<Rightarrow> nat option" where
  "arrayIndex key =
     (case key of
        [] \<Rightarrow> None
      | c # cs \<Rightarrow>
          if \<not> list_all isDigit key \<or> (c = CHR ''0'' \<and> cs \<noteq> []) then None
          else (let n = foldl (\<lambda>a d. 10 * a + ((of_char d :: nat) - 48)) 0 key
                in if n < 2 ^ 32 - 1 then Some n else None))"

fun insertIndexKey :: "nat \<Rightarrow> string \<Rightarrow> 'v \<Rightarrow> (string \<times> 'v) list \<Rightarrow> (string \<times> 'v) list" where
  "insertIndexKey n k v [] = [(k, v)]"
| "insertIndexKey n k v ((k1, v1) # rest) =
     (case arrayIndex k1 of
        None \<Rightarrow> (k, v) # (k1, v1) # rest
      | Some n1 \<Rightarrow>
          if n1 < n then (k1, v1) # insertIndexKey n k v rest
          else (k, v) # (k1, v1) # rest)"

definition setProperty :: "string \<Rightarrow> 'v \<Rightarrow> (string \<times> 'v) list \<Rightarrow> (string \<times> 'v) list" where
  "setProperty k v m =
     (if map_of m k \<noteq> None then AList.update k v m
      else (case arrayIndex k of
              None \<Rightarrow> m @ [(k, v)]
            | Some n \<Rightarrow> insertIndexKey n k v m))"

text \<open>
  The decorator that one call \<open>signature(...paramTypes)\<close> returns, applied to a class and a
  key. It does nothing unless \<open>target[key]\<close> is a function (\<open>isMethod\<close>). When \<open>paramTypes\<close>
  is empty it is overwritten with the parameter types that the compiler recorded
  (\<open>designParamTypes\<close>); the variable belongs to the closure, so \<open>applySignature\<close> returns it
  with the new metadata and state, for a later application of the same decorator value.
  The new signature goes in front of the signatures the key already has.
\<close>

definition applySignature :: "ParamType list \<Rightarrow> Type list \<Rightarrow> bool \<Rightarrow> string
     \<Rightarrow> SignatureMap option \<Rightarrow> state \<Rightarrow> ParamType list \<times> SignatureMap option \<times> state" where
  "applySignature paramTypes designParamTypes isMethod key meta st =
     (if isMethod then
        (let paramTypes1 =
               (if length paramTypes < 1 then map OneType designParamTypes else paramTypes)
         in case wrapParamTypes paramTypes1 st of
              (newSignature, st1) \<Rightarrow>
                (let m = (case meta of None \<Rightarrow> [] | Some m0 \<Rightarrow> m0);
                     existingSignatures = (case map_of m key of None \<Rightarrow> [] | Some sigs \<Rightarrow> sigs)
                 in (paramTypes1,
                     Some (setProperty key (newSignature # existingSignatures) m), st1)))
      else (paramTypes, meta, st))"

text \<open>
  \<open>@signature(...paramTypes)\<close> on a member: a new decorator value, applied once. Its
  result is the metadata and the state.
\<close>

definition signature :: "ParamType list \<Rightarrow> Type list \<Rightarrow> bool \<Rightarrow> string
     \<Rightarrow> SignatureMap option \<Rightarrow> state \<Rightarrow> SignatureMap option \<times> state" where
  "signature paramTypes designParamTypes isMethod key meta st =
     snd (applySignature paramTypes designParamTypes isMethod key meta st)"

section \<open>The signature compiler\<close>

text \<open>
  \<open>_getGuard\<close>. An unregistered type is an error unless \<open>autoadd\<close> is on, in which case
  \<open>_addTypes\<close> is tried first. \<open>intersect\<close> of the guards found follows; where the type
  still has none, \<open>intersect(undefined)\<close> is outside what the specification describes
  (section 4.2: no sensible behaviour), and the model raises the engine's error there.
\<close>

definition lookupGuard :: "Type \<Rightarrow> state \<Rightarrow> (error + Guard) \<times> state" where
  "lookupGuard type st =
     (case guards st type of
        None \<Rightarrow> (Inl EngineTypeError, st)
      | Some gs \<Rightarrow> (Inr (intersect gs), st))"

definition getGuard :: "(Type \<Rightarrow> ClassInfo) \<Rightarrow> TypedOptions \<Rightarrow> Type \<Rightarrow> state \<Rightarrow> (error + Guard) \<times> state" where
  "getGuard env options type st =
     (if guards st type = None
      then if \<not> autoadd options
           then (Inl (TypeError (''Unknown type \"'' @ getName type @ ''\"'')), st)
           else (case addTypes env options type st of
                   Inl e \<Rightarrow> (Inl e, st)
                 | Inr st1 \<Rightarrow> lookupGuard type st1)
      else lookupGuard type st)"

text \<open>
  \<open>types.map(t => this._getGuard(t))\<close>: from left to right, the first exception ends it,
  the state changes made so far stay.
\<close>

fun getGuards :: "(Type \<Rightarrow> ClassInfo) \<Rightarrow> TypedOptions \<Rightarrow> Type list \<Rightarrow> state \<Rightarrow> (error + Guard list) \<times> state" where
  "getGuards env options [] st = (Inr [], st)"
| "getGuards env options (t # ts) st =
     (case getGuard env options t st of
        (Inl e, st1) \<Rightarrow> (Inl e, st1)
      | (Inr g, st1) \<Rightarrow>
          (case getGuards env options ts st1 of
             (Inl e, st2) \<Rightarrow> (Inl e, st2)
           | (Inr gs, st2) \<Rightarrow> (Inr (g # gs), st2)))"

text \<open>
  The two nested \<open>forEach\<close> loops of \<open>_convertParamToUnion\<close>. The inner body pushes the
  \<open>fromType\<close> and its converter when \<open>types.indexOf(fromType) < 0\<close>. The outer
  \<open>types.forEach\<close> fixes its range when it starts (ECMAScript: elements appended during
  the call are not visited), so it runs over the types the array held on entry.
\<close>

definition pushConversion :: "ConversionMethod \<Rightarrow> Type list \<times> Conversion list \<Rightarrow> Type list \<times> Conversion list" where
  "pushConversion cm tc =
     (if fromType cm \<notin> set (fst tc)
      then (fst tc @ [fromType cm], snd tc @ [convert cm])
      else tc)"

definition expandTypes :: "(Type \<Rightarrow> ConversionMethod list) \<Rightarrow> Type list \<Rightarrow> Type list \<times> Conversion list" where
  "expandTypes convs types =
     fold (\<lambda>toType tc. fold pushConversion (convs toType) tc) types
       (types, map (\<lambda>t. I) types)"

text \<open>
  \<open>_convertParamToUnion\<close>. The parameter is the address of the array; the pushes go to
  that array. The result is the union guard and the matcher, \<open>null\<close> (\<open>None\<close>) when no type
  was added.
\<close>

definition convertParamToUnion :: "(Type \<Rightarrow> ClassInfo) \<Rightarrow> TypedOptions \<Rightarrow> Parameter \<Rightarrow> state
     \<Rightarrow> (error + (Guard \<times> (val \<Rightarrow> val option) option)) \<times> state" where
  "convertParamToUnion env options p st =
     (let len = length (arrays st p);
          (types, converters) = expandTypes (conversionsOf st) (arrays st p);
          st1 = st\<lparr>arrays := (arrays st)(p := types)\<rparr>;
          noConversions = (len = length types)
      in case getGuards env options types st1 of
           (Inl e, st2) \<Rightarrow> (Inl e, st2)
         | (Inr gs, st2) \<Rightarrow>
             (if noConversions then (Inr (union_guard gs, None), st2)
              else (Inr (union_guard gs, Some (matcher gs converters)), st2)))"

text \<open>\<open>params.map(t => this._convertParamToUnion(t))\<close>.\<close>

fun convertParams :: "(Type \<Rightarrow> ClassInfo) \<Rightarrow> TypedOptions \<Rightarrow> Parameter list \<Rightarrow> state
     \<Rightarrow> (error + (Guard \<times> (val \<Rightarrow> val option) option) list) \<times> state" where
  "convertParams env options [] st = (Inr [], st)"
| "convertParams env options (p # ps) st =
     (case convertParamToUnion env options p st of
        (Inl e, st1) \<Rightarrow> (Inl e, st1)
      | (Inr x, st1) \<Rightarrow>
          (case convertParams env options ps st1 of
             (Inl e, st2) \<Rightarrow> (Inl e, st2)
           | (Inr xs, st2) \<Rightarrow> (Inr (x # xs), st2)))"

text \<open>
  \<open>_getSignatureGuard\<close>: the tuple guard over the slots' guards, and the applier over the
  slots' matchers.
\<close>

definition getSignatureGuard :: "(Type \<Rightarrow> ClassInfo) \<Rightarrow> TypedOptions \<Rightarrow> Signature \<Rightarrow> state
     \<Rightarrow> (error + ((val list \<Rightarrow> bool) \<times> (val list \<Rightarrow> val list option))) \<times> state" where
  "getSignatureGuard env options params st =
     (case convertParams env options params st of
        (Inl e, st1) \<Rightarrow> (Inl e, st1)
      | (Inr guardsAndMatchers, st1) \<Rightarrow>
          (let gs = map fst guardsAndMatchers;
               matchers = map snd guardsAndMatchers
           in (Inr (tuple gs, applier matchers), st1)))"

section \<open>The function factory\<close>

text \<open>
  A candidate is the entry \<open>[g, [method, convert]]\<close> of the sequence. Methods are total
  functions of their argument list; the receiver \<open>this\<close> and methods that throw are left out. The converter is tested for
  truthiness before use (\<open>if (c0)\<close>), hence the option.
\<close>

type_synonym Method = "val list \<Rightarrow> val"
type_synonym Candidate = "(val list \<Rightarrow> bool) \<times> (Method \<times> (val list \<Rightarrow> val list option) option)"

text \<open>
  \<open>if (c) args = c(args); return m.apply(this, args);\<close>, the tail of every branch of
  \<open>_makeFunction\<close>. A matcher that finds no guard (see \<open>matcher\<close>) ends the call with the
  engine's error.
\<close>

definition invoke :: "Method \<Rightarrow> (val list \<Rightarrow> val list option) option \<Rightarrow> val list \<Rightarrow> error + val" where
  "invoke m c args =
     (case c of
        None \<Rightarrow> Inr (m args)
      | Some conv \<Rightarrow> (case conv args of None \<Rightarrow> Inl EngineTypeError | Some args' \<Rightarrow> Inr (m args')))"

definition noAlternatives :: error where
  "noAlternatives = TypeError ''No alternatives were matched''"

text \<open>
  \<open>_makeFunction\<close>. The destructuring of \<open>sequence[0]\<close> comes first and throws on an empty
  sequence. Then the nullary case, the case of one method, the case of two, and the
  general case through \<open>choose\<close>.
\<close>

definition makeFunction :: "Candidate list \<Rightarrow> enat \<Rightarrow> nat \<Rightarrow> error + (val list \<Rightarrow> error + val)" where
  "makeFunction sequence minLength maxLength =
     (case sequence of
        [] \<Rightarrow> Inl EngineTypeError
      | (g0, (m0, c0)) # rest \<Rightarrow>
          if maxLength = 0
          then Inr (\<lambda>args. if length args > 0 then Inl noAlternatives else Inr (m0 []))
          else if length sequence = 1
          then Inr (\<lambda>args. if g0 args then invoke m0 c0 args else Inl noAlternatives)
          else (case rest of
                  [] \<Rightarrow> Inl EngineTypeError
                | (g1, (m1, c1)) # rest1 \<Rightarrow>
                    if length sequence = 2
                    then Inr (\<lambda>args.
                           if g0 args then invoke m0 c0 args
                           else if g1 args then invoke m1 c1 args
                           else Inl noAlternatives)
                    else Inr (\<lambda>args.
                           case choose_alt sequence args of
                             Inl e \<Rightarrow> Inl e
                           | Inr (method, conv) \<Rightarrow> invoke method conv args)))"

text \<open>
  The function specification: the instance \<open>new ctor()\<close> with its own \<open>name\<close> if it has
  one, the constructor's name, the methods by key, and the \<open>META_METHODS\<close> metadata
  (\<open>None\<close> when the class declares no signature).
\<close>

record Target =
  instanceName :: "string option"
  ctorName :: string
  methods :: "string \<Rightarrow> Method"
  signatures :: "SignatureMap option"

record Callable =
  call :: "val list \<Rightarrow> error + val"
  fnLength :: nat
  fnName :: string

text \<open>
  The loops of \<open>function\<close>: \<open>signatures.forEach\<close> inside \<open>for (const key in map)\<close>. The
  accumulator is \<open>maxLength\<close>, \<open>minLength\<close> and the sequence.
\<close>

fun forEachSignature :: "(Type \<Rightarrow> ClassInfo) \<Rightarrow> TypedOptions \<Rightarrow> Method \<Rightarrow> Signature list
     \<Rightarrow> nat \<times> enat \<times> Candidate list \<Rightarrow> state \<Rightarrow> (error + (nat \<times> enat \<times> Candidate list)) \<times> state" where
  "forEachSignature env options m [] acc st = (Inr acc, st)"
| "forEachSignature env options m (sig # sigs) (maxLength, minLength, sequence) st =
     (let maxLength1 = max maxLength (length sig);
          minLength1 = min minLength (enat (length sig))
      in case getSignatureGuard env options sig st of
           (Inl e, st1) \<Rightarrow> (Inl e, st1)
         | (Inr (g, conv), st1) \<Rightarrow>
             forEachSignature env options m sigs
               (maxLength1, minLength1, sequence @ [(g, (m, Some conv))]) st1)"

fun forInMap :: "(Type \<Rightarrow> ClassInfo) \<Rightarrow> TypedOptions \<Rightarrow> (string \<Rightarrow> Method) \<Rightarrow> SignatureMap
     \<Rightarrow> nat \<times> enat \<times> Candidate list \<Rightarrow> state \<Rightarrow> (error + (nat \<times> enat \<times> Candidate list)) \<times> state" where
  "forInMap env options ms [] acc st = (Inr acc, st)"
| "forInMap env options ms ((key, sigs) # rest) acc st =
     (case forEachSignature env options (ms key) sigs acc st of
        (Inl e, st1) \<Rightarrow> (Inl e, st1)
      | (Inr acc1, st1) \<Rightarrow> forInMap env options ms rest acc1 st1)"

text \<open>
  \<open>function(ctor)\<close>, under the name \<open>typed_function\<close>. The test
  \<open>Object.keys(map).length < 0\<close> is kept as written. The callable gets \<open>maxLength\<close> as its
  \<open>length\<close> and the name as its \<open>name\<close>.
\<close>

definition typed_function :: "(Type \<Rightarrow> ClassInfo) \<Rightarrow> TypedOptions \<Rightarrow> Target \<Rightarrow> state \<Rightarrow> (error + Callable) \<times> state" where
  "typed_function env options target st =
     (let name = (case instanceName target of Some n \<Rightarrow> n | None \<Rightarrow> ctorName target)
      in case signatures target of
           None \<Rightarrow> (Inl (Error ''No signatures provided''), st)
         | Some m \<Rightarrow>
             if length (map fst m) < 0 then (Inl (Error ''No signatures provided''), st)
             else (case forInMap env options (methods target) m (0, \<infinity>, []) st of
                     (Inl e, st1) \<Rightarrow> (Inl e, st1)
                   | (Inr (maxLength, minLength, sequence), st1) \<Rightarrow>
                       (case makeFunction sequence minLength maxLength of
                          Inl e \<Rightarrow> (Inl e, st1)
                        | Inr fn \<Rightarrow>
                            (Inr \<lparr>call = fn, fnLength = maxLength, fnName = name\<rparr>, st1))))"

section \<open>The built-in types and the example of the tests\<close>

text \<open>
  The class \<open>DefaultTypes\<close>: its guards by key, and the \<open>META_GUARDS\<close> map its decorators
  build. \<open>@guard(null)\<close> and \<open>@guard(undefined)\<close> leave a falsy type, which \<open>_addTypes\<close>
  replaces by the class itself. \<open>Unknown\<close> comes from \<open>guardtypes\<close>; it is taken to be an
  object of its own.
\<close>

definition DefaultTypes :: Type where
  "DefaultTypes = Ctor ''DefaultTypes''"

definition Unknown :: Type where
  "Unknown = Sentinel ''Unknown''"

definition defaultGuard :: "string \<Rightarrow> Guard" where
  "defaultGuard key x =
     (if key = ''isNumber'' then (case x of Num n \<Rightarrow> True | _ \<Rightarrow> False)
      else if key = ''isString'' then (case x of Str s \<Rightarrow> True | _ \<Rightarrow> False)
      else if key = ''isBoolean'' then (case x of Bool b \<Rightarrow> True | _ \<Rightarrow> False)
      else if key = ''isFunction'' then (case x of Func f \<Rightarrow> True | _ \<Rightarrow> False)
      else if key = ''isArray'' then (case x of Arr xs \<Rightarrow> True | _ \<Rightarrow> False)
      else if key = ''isDate'' then instanceOf x (Ctor ''Date'')
      else if key = ''isRegExp'' then instanceOf x (Ctor ''RegExp'')
      else if key = ''isNull'' then x = VNull
      else if key = ''isUndefined'' then x = VUndefined
      else if key = ''isObject'' then (case x of Inst c fs \<Rightarrow> c = ''Object'' | _ \<Rightarrow> False)
      else if key = ''isUnknown'' then True
      else False)"

definition defaultTypesInfo :: ClassInfo where
  "defaultTypesInfo =
     \<lparr>guardMap = Some
        [(''isNumber'', Some (Ctor ''Number'')),
         (''isString'', Some (Ctor ''String'')),
         (''isBoolean'', Some (Ctor ''Boolean'')),
         (''isFunction'', Some (Ctor ''Function'')),
         (''isArray'', Some (Ctor ''Array'')),
         (''isDate'', Some (Ctor ''Date'')),
         (''isRegExp'', Some (Ctor ''RegExp'')),
         (''isNull'', Some Null),
         (''isUndefined'', None),
         (''isObject'', Some (Ctor ''Object'')),
         (''isUnknown'', Some Unknown)],
      conversionMap = None,
      staticGuard = defaultGuard,
      staticConvert = (\<lambda>key. I)\<rparr>"

text \<open>
  The class \<open>Complex\<close> of the tests (the pair type of the specification's example): the
  guard \<open>isComplex\<close> for the class itself and the conversion \<open>fromNumber\<close>, which makes
  \<open>new Complex(a, 0)\<close>. The token is \<open>ComplexClass\<close>, since HOL has a \<open>Complex\<close>.
\<close>

definition ComplexClass :: Type where
  "ComplexClass = Ctor ''Complex''"

definition complexInfo :: ClassInfo where
  "complexInfo =
     \<lparr>guardMap = Some [(''isComplex'', None)],
      conversionMap = Some [(''fromNumber'', Ctor ''Number'', ComplexClass)],
      staticGuard = (\<lambda>key x. instanceOf x ComplexClass),
      staticConvert = (\<lambda>key a. Inst ''Complex'' [a, Num 0])\<rparr>"

definition noInfo :: ClassInfo where
  "noInfo = \<lparr>guardMap = None, conversionMap = None,
             staticGuard = (\<lambda>key x. False), staticConvert = (\<lambda>key. I)\<rparr>"

definition testEnv :: "Type \<Rightarrow> ClassInfo" where
  "testEnv t =
     (if t = DefaultTypes then defaultTypesInfo
      else if t = ComplexClass then complexInfo
      else noInfo)"

definition defaultOptions :: TypedOptions where
  "defaultOptions = \<lparr>autoadd = False\<rparr>"

text \<open>
  The class \<open>Times\<close> of the tests: \<open>number(a, b)\<close> returns \<open>a * b\<close>, \<open>complex(a, b)\<close> returns
  \<open>a.times(b)\<close>. Its two \<open>@signature()\<close> decorators, run on a heap without arrays, give the
  map \<open>timesMap\<close>, with the key \<open>number\<close> before the key \<open>complex\<close>, and the four parameter
  arrays \<open>timesArrays\<close> at the addresses 0 to 3 (lemma \<open>times_decorated\<close>).

  \<open>timesMethods\<close> is the two methods on the arguments their signatures admit: two numbers,
  and two \<open>Complex\<close> objects with number fields, with products that stay below \<open>2 ^ 53\<close>.
  Elsewhere the JavaScript rounds, yields \<open>NaN\<close> or throws (\<open>a.times\<close> of a number is not a
  function); a \<open>Method\<close> of the model is a total function and cannot throw, and
  \<open>VUndefined\<close> there only marks the case as outside the model. The theorems apply
  \<open>timesMethods\<close> to \<open>(3, 6)\<close> and to \<open>(Complex(3, 0), Complex(0, 6))\<close> only.
\<close>

definition timesMethods :: "string \<Rightarrow> Method" where
  "timesMethods key args =
     (if key = ''number'' then
        (case args of [Num a, Num b] \<Rightarrow> Num (a * b) | _ \<Rightarrow> VUndefined)
      else
        (case args of
           [Inst c [Num re1, Num im1], Inst d [Num re2, Num im2]] \<Rightarrow>
             Inst ''Complex'' [Num (re1 * re2 - im1 * im2), Num (re1 * im2 + im1 * re2)]
         | _ \<Rightarrow> VUndefined))"

definition timesMap :: SignatureMap where
  "timesMap = [(''number'', [[0, 1]]), (''complex'', [[2, 3]])]"

definition Times :: "(string \<Rightarrow> Method) \<Rightarrow> Target" where
  "Times ms = \<lparr>instanceName = None, ctorName = ''Times'', methods = ms,
               signatures = Some timesMap\<rparr>"

definition timesArrays :: "nat \<Rightarrow> Type list" where
  "timesArrays p =
     (if p = 0 \<or> p = 1 then [Ctor ''Number'']
      else if p = 2 \<or> p = 3 then [ComplexClass]
      else [])"

definition emptyState :: state where
  "emptyState = \<lparr>guards = Map.empty, conversions = Map.empty, arrays = (\<lambda>p. []), nextArray = 0\<rparr>"

text \<open>
  The registry of the tests: \<open>new Typed()\<close> adds \<open>DefaultTypes\<close>, then \<open>add(Complex)\<close>. The
  result of the two \<open>add\<close> calls, written out, is \<open>registryState\<close> (lemma \<open>add_registryState\<close>);
  \<open>testState\<close> is that state once the class \<open>Times\<close> has been declared.
\<close>

definition testGuards :: "Type \<rightharpoonup> Guard list" where
  "testGuards =
     [Ctor ''Number'' \<mapsto> [defaultGuard ''isNumber''],
      Ctor ''String'' \<mapsto> [defaultGuard ''isString''],
      Ctor ''Boolean'' \<mapsto> [defaultGuard ''isBoolean''],
      Ctor ''Function'' \<mapsto> [defaultGuard ''isFunction''],
      Ctor ''Array'' \<mapsto> [defaultGuard ''isArray''],
      Ctor ''Date'' \<mapsto> [defaultGuard ''isDate''],
      Ctor ''RegExp'' \<mapsto> [defaultGuard ''isRegExp''],
      DefaultTypes \<mapsto> [defaultGuard ''isNull'', defaultGuard ''isUndefined''],
      Ctor ''Object'' \<mapsto> [defaultGuard ''isObject''],
      Unknown \<mapsto> [defaultGuard ''isUnknown''],
      ComplexClass \<mapsto> [\<lambda>x. instanceOf x ComplexClass]]"

definition testConversions :: "Type \<rightharpoonup> ConversionMethod list" where
  "testConversions =
     [ComplexClass \<mapsto> [\<lparr>fromType = Ctor ''Number'', convert = (\<lambda>a. Inst ''Complex'' [a, Num 0])\<rparr>]]"

definition registryState :: state where
  "registryState = \<lparr>guards = testGuards, conversions = testConversions,
                     arrays = (\<lambda>p. []), nextArray = 0\<rparr>"

definition testState :: state where
  "testState = \<lparr>guards = testGuards, conversions = testConversions,
                 arrays = timesArrays, nextArray = 4\<rparr>"

section \<open>Notions used in the statements\<close>

text \<open>
  The signatures of a map with their keys, in the order in which \<open>function\<close> visits them
  (keys in \<open>for ... in\<close> order, the signatures of a key in array order), and the parameter
  arrays of a map in the order in which they are compiled.
\<close>

definition keyedSignatures :: "SignatureMap \<Rightarrow> (string \<times> Signature) list" where
  "keyedSignatures m = concat (map (\<lambda>ks. map (Pair (fst ks)) (snd ks)) m)"

definition allParameters :: "SignatureMap \<Rightarrow> Parameter list" where
  "allParameters m = concat (concat (map snd m))"

text \<open>The sequence of candidates that \<open>function\<close> hands to \<open>_makeFunction\<close>.\<close>

definition candidatesOf :: "(Type \<Rightarrow> ClassInfo) \<Rightarrow> TypedOptions \<Rightarrow> Target \<Rightarrow> state \<Rightarrow> Candidate list" where
  "candidatesOf env options target st =
     (case signatures target of
        None \<Rightarrow> []
      | Some m \<Rightarrow>
          (case forInMap env options (methods target) m (0, \<infinity>, []) st of
             (Inl e, st1) \<Rightarrow> []
           | (Inr (maxLength, minLength, sequence), st1) \<Rightarrow> sequence))"

text \<open>The first candidate, in sequence order, whose guard accepts the arguments.\<close>

definition firstMatch :: "Candidate list \<Rightarrow> val list \<Rightarrow> Candidate option" where
  "firstMatch sequence args = find (\<lambda>c. fst c args) sequence"

text \<open>
  The error of a call that no candidate accepts: the fixed message on the nullary path and
  on the paths for one and two methods, the error of \<open>choose\<close> on the general path.
\<close>

definition noMatchError :: "Candidate list \<Rightarrow> nat \<Rightarrow> val list \<Rightarrow> error" where
  "noMatchError sequence maxLength args =
     (if maxLength = 0 \<or> length sequence \<le> 2 then noAlternatives
      else NoMatch (map typeName args))"

text \<open>
  The general scan of section 4.4 and 4.5 of the specification, which is also the last
  branch of \<open>_makeFunction\<close>: select with \<open>choose\<close>, convert, invoke.
\<close>

definition generalScan :: "Candidate list \<Rightarrow> val list \<Rightarrow> error + val" where
  "generalScan sequence args =
     (case choose_alt sequence args of
        Inl e \<Rightarrow> Inl e
      | Inr (method, conv) \<Rightarrow> invoke method conv args)"

text \<open>The error of \<open>_getGuard\<close> for a token.\<close>

definition unknownType :: "Type \<Rightarrow> error" where
  "unknownType t = TypeError (''Unknown type \"'' @ getName t @ ''\"'')"

text \<open>The effect of compiling the parameter at address \<open>p\<close> on the heap of arrays.\<close>

definition expandAt :: "(Type \<Rightarrow> ConversionMethod list) \<Rightarrow> Parameter \<Rightarrow> (nat \<Rightarrow> Type list) \<Rightarrow> (nat \<Rightarrow> Type list)" where
  "expandAt convs p a = a(p := fst (expandTypes convs (a p)))"

text \<open>
  The shape of a compiled slot and of a compiled candidate of \<open>n\<close> slots: a union guard,
  and either no matcher or a matcher with a converter for every guard.
\<close>

definition slotOK :: "Guard \<times> (val \<Rightarrow> val option) option \<Rightarrow> bool" where
  "slotOK s \<longleftrightarrow> (\<exists>gs. fst s = union_guard gs \<and>
      (snd s = None \<or> (\<exists>cs. length gs \<le> length cs \<and> snd s = Some (matcher gs cs))))"

definition candOK :: "nat \<Rightarrow> Candidate \<Rightarrow> bool" where
  "candOK n c \<longleftrightarrow> (\<exists>slots. length slots = n \<and> list_all slotOK slots
       \<and> fst c = tuple (map fst slots) \<and> snd (snd c) = Some (applier (map snd slots)))"

text \<open>
  The compilation of a list of parameters seen from the state alone: the error that ended
  it, if any, and the state it left.
\<close>

fun visit :: "(Type \<Rightarrow> ClassInfo) \<Rightarrow> TypedOptions \<Rightarrow> Parameter list \<Rightarrow> state \<Rightarrow> error option \<times> state" where
  "visit env options [] st = (None, st)"
| "visit env options (p # ps) st =
     (case convertParamToUnion env options p st of
        (Inl e, st1) \<Rightarrow> (Some e, st1)
      | (Inr s, st1) \<Rightarrow> visit env options ps st1)"

definition errOf :: "error + 'a \<Rightarrow> error option" where
  "errOf r = (case r of Inl e \<Rightarrow> Some e | Inr x \<Rightarrow> None)"

text \<open>
  Further examples. Methods that return an object recording their key and the arguments
  they received; a class with two signatures over the same two \<open>Number\<close> parameters; and a
  registry with a second conversion, from \<open>String\<close> to \<open>Number\<close>, behind the conversion
  from \<open>Number\<close> to \<open>Complex\<close>.
\<close>

definition tagMethods :: "string \<Rightarrow> Method" where
  "tagMethods key args = Inst key args"

definition twoNumbers :: Target where
  "twoNumbers = \<lparr>instanceName = None, ctorName = ''TwoNumbers'', methods = tagMethods,
                 signatures = Some [(''first'', [[0, 1]]), (''second'', [[0, 1]])]\<rparr>"

definition chainState :: state where
  "chainState = testState\<lparr>conversions :=
     testConversions(Ctor ''Number'' \<mapsto> [\<lparr>fromType = Ctor ''String'', convert = (\<lambda>s. Num 0)\<rparr>])\<rparr>"

text \<open>
  The parameter arrays of \<open>Times\<close> after its first compilation, a state whose array 4
  holds an unregistered class \<open>Foo\<close> with the class \<open>SN\<close> of the tests over it, a class with
  one nullary signature, and a class with a single signature over two numbers.
\<close>

definition timesArrays2 :: "nat \<Rightarrow> Type list" where
  "timesArrays2 p =
     (if p = 0 \<or> p = 1 then [Ctor ''Number'']
      else if p = 2 \<or> p = 3 then [ComplexClass, Ctor ''Number'']
      else [])"

definition fooState :: state where
  "fooState = testState\<lparr>arrays := timesArrays(4 := [Ctor ''Foo'']), nextArray := 5\<rparr>"

definition fooTarget :: Target where
  "fooTarget = \<lparr>instanceName = None, ctorName = ''SN'', methods = tagMethods,
                signatures = Some [(''s'', [[4]])]\<rparr>"

definition nullaryTarget :: Target where
  "nullaryTarget = \<lparr>instanceName = None, ctorName = ''F'', methods = tagMethods,
                    signatures = Some [(''s'', [[]])]\<rparr>"


section \<open>Lemmas\<close>

subsection \<open>The expansion of a parameter\<close>

lemma fold_over_concat: "fold f (concat xss) s = fold (fold f) xss s"
  by (induction xss arbitrary: s) simp_all

lemma expandTypes_flat:
  "expandTypes convs types = fold pushConversion (concat (map convs types)) (types, map (\<lambda>t. I) types)"
  by (simp add: expandTypes_def fold_over_concat fold_map comp_def)

lemma pushConversion_length:
  "length (snd tc) = length (fst tc) \<Longrightarrow> length (snd (pushConversion e tc)) = length (fst (pushConversion e tc))"
  by (simp add: pushConversion_def)

lemma fold_push_length:
  "length (snd tc) = length (fst tc) \<Longrightarrow>
   length (snd (fold pushConversion es tc)) = length (fst (fold pushConversion es tc))"
  by (induction es arbitrary: tc) (simp_all add: pushConversion_length)

lemma fold_push_set:
  "set (fst (fold pushConversion es tc)) = set (fst tc) \<union> fromType ` set es"
  by (induction es arbitrary: tc) (auto simp: pushConversion_def)

lemma fold_push_first:
  "\<exists>ts cs. fst (fold pushConversion es tc) = fst tc @ ts \<and> snd (fold pushConversion es tc) = snd tc @ cs
     \<and> length ts = length cs \<and> distinct ts \<and> set ts \<inter> set (fst tc) = {}
     \<and> (\<forall>j<length ts. \<exists>e. find (\<lambda>e. fromType e = ts ! j) es = Some e \<and> convert e = cs ! j)"
proof (induction es arbitrary: tc)
  case Nil
  then show ?case by simp
next
  case (Cons e es)
  obtain ts cs where h: "fst (fold pushConversion es (pushConversion e tc)) = fst (pushConversion e tc) @ ts"
      "snd (fold pushConversion es (pushConversion e tc)) = snd (pushConversion e tc) @ cs"
      "length ts = length cs" "distinct ts" "set ts \<inter> set (fst (pushConversion e tc)) = {}"
      "\<forall>j<length ts. \<exists>e'. find (\<lambda>e'. fromType e' = ts ! j) es = Some e' \<and> convert e' = cs ! j"
    using Cons.IH[of "pushConversion e tc"] by blast
  show ?case
  proof (cases "fromType e \<in> set (fst tc)")
    case True
    then have p: "pushConversion e tc = tc" by (simp add: pushConversion_def)
    have "\<forall>j<length ts. \<exists>e'. find (\<lambda>e'. fromType e' = ts ! j) (e # es) = Some e' \<and> convert e' = cs ! j"
    proof (intro allI impI)
      fix j assume j: "j < length ts"
      then have "ts ! j \<in> set ts" by simp
      then have "fromType e \<noteq> ts ! j" using h(5) p True by auto
      then show "\<exists>e'. find (\<lambda>e'. fromType e' = ts ! j) (e # es) = Some e' \<and> convert e' = cs ! j"
        using h(6) j by simp
    qed
    then show ?thesis using h(1-5) p by auto
  next
    case False
    then have p: "pushConversion e tc = (fst tc @ [fromType e], snd tc @ [convert e])"
      by (simp add: pushConversion_def)
    have "\<forall>j<length (fromType e # ts). \<exists>e'. find (\<lambda>e'. fromType e' = (fromType e # ts) ! j) (e # es) = Some e'
             \<and> convert e' = (convert e # cs) ! j"
    proof (intro allI impI)
      fix j assume j: "j < length (fromType e # ts)"
      show "\<exists>e'. find (\<lambda>e'. fromType e' = (fromType e # ts) ! j) (e # es) = Some e'
             \<and> convert e' = (convert e # cs) ! j"
      proof (cases j)
        case 0
        then show ?thesis by simp
      next
        case (Suc k)
        then have k: "k < length ts" using j by simp
        then have "ts ! k \<in> set ts" by simp
        then have "fromType e \<noteq> ts ! k" using h(5) p by auto
        then show ?thesis using h(6) k Suc by simp
      qed
    qed
    then show ?thesis
      using h(1-5) p False
      by (intro exI[of _ "fromType e # ts"] exI[of _ "convert e # cs"]) auto
  qed
qed

lemma expandTypes_length:
  "length (snd (expandTypes convs ts)) = length (fst (expandTypes convs ts))"
  by (simp add: expandTypes_flat fold_push_length)

lemma expandTypes_set:
  "set (fst (expandTypes convs ts)) = set ts \<union> fromType ` (\<Union>t\<in>set ts. set (convs t))"
  by (auto simp: expandTypes_flat fold_push_set)

lemma expandTypes_shape:
  "\<exists>added acs. expandTypes convs declared = (declared @ added, map (\<lambda>t. I) declared @ acs)
     \<and> length acs = length added \<and> distinct added \<and> set added \<inter> set declared = {}
     \<and> set added = fromType ` (\<Union>t\<in>set declared. set (convs t)) - set declared
     \<and> (\<forall>j<length added. \<exists>e. find (\<lambda>e. fromType e = added ! j) (concat (map convs declared)) = Some e
            \<and> convert e = acs ! j)"
proof -
  let ?es = "concat (map convs declared)"
  let ?tc = "(declared, map (\<lambda>t. I) declared)"
  obtain ts cs where h: "fst (fold pushConversion ?es ?tc) = fst ?tc @ ts"
     "snd (fold pushConversion ?es ?tc) = snd ?tc @ cs"
     "length ts = length cs" "distinct ts" "set ts \<inter> set (fst ?tc) = {}"
     "\<forall>j<length ts. \<exists>e. find (\<lambda>e. fromType e = ts ! j) ?es = Some e \<and> convert e = cs ! j"
    using fold_push_first[of ?es ?tc] by blast
  have e: "expandTypes convs declared = (declared @ ts, map (\<lambda>t. I) declared @ cs)"
    using h(1,2) by (simp add: expandTypes_flat prod_eq_iff)
  have "set (declared @ ts) = set declared \<union> fromType ` (\<Union>t\<in>set declared. set (convs t))"
    using expandTypes_set[of convs declared] e by simp
  then have "set ts = fromType ` (\<Union>t\<in>set declared. set (convs t)) - set declared"
    using h(5) by auto
  then show ?thesis using e h(3,4,5,6) by auto
qed

lemma expandTypes_super: "set ts \<subseteq> set (fst (expandTypes convs ts))"
  by (simp add: expandTypes_set)

lemma expandTypes_mono:
  "set ts \<subseteq> set us \<Longrightarrow> set (fst (expandTypes convs ts)) \<subseteq> set (fst (expandTypes convs us))"
  by (auto simp: expandTypes_set)

subsection \<open>The guard combinators\<close>


lemma tuple_nil: "tuple [] args \<longleftrightarrow> args = []"
  by (cases args) auto



lemma matcher_some:
  "union_guard gs x \<Longrightarrow> length gs \<le> length cs \<Longrightarrow> \<exists>y. matcher gs cs x = Some y"
proof (induction gs cs x rule: matcher.induct)
  case (1 g gs c cs x)
  then show ?case by (cases "g x") auto
qed auto

lemma applier_some:
  "list_all slotOK slots \<Longrightarrow> tuple (map fst slots) args \<Longrightarrow>
   \<exists>args'. applier (map snd slots) args = Some args' \<and> length args' = length args"
proof (induction slots arbitrary: args)
  case Nil
  then show ?case by (cases args) auto
next
  case (Cons s slots)
  obtain a as where args: "args = a # as" using Cons.prems(2) by (cases args) auto
  have ga: "fst s a" and rest: "tuple (map fst slots) as"
    using Cons.prems(2) args by (auto split: if_splits)
  obtain bs where bs: "applier (map snd slots) as = Some bs" "length bs = length as"
    using Cons.IH[OF _ rest] Cons.prems(1) by auto
  show ?case
  proof (cases "snd s")
    case None
    then show ?thesis using bs args by simp
  next
    case (Some m)
    then obtain gs cs where "fst s = union_guard gs" "length gs \<le> length cs" "m = matcher gs cs"
      using Cons.prems(1) by (auto simp: slotOK_def)
    then obtain b where "m a = Some b" using matcher_some[of gs a cs] ga by auto
    then show ?thesis using bs args Some by simp
  qed
qed

lemma choose_alt_find:
  "choose_alt sequence args =
     (case find (\<lambda>c. fst c args) sequence of
        None \<Rightarrow> Inl (NoMatch (map typeName args))
      | Some c \<Rightarrow> Inr (snd c))"
  by (induction sequence args rule: choose_alt.induct) auto

subsection \<open>Guards of the registry\<close>

lemma lookupGuard_frame: "lookupGuard t st = (r, st') \<Longrightarrow> st' = st"
  by (auto simp: lookupGuard_def split: option.splits)

lemma addTypes_frame:
  "addTypes env options t st = Inr st' \<Longrightarrow> arrays st' = arrays st \<and> conversions st' = conversions st"
proof -
  have f: "arrays (fold (addGuardKey env t) m s) = arrays s \<and> conversions (fold (addGuardKey env t) m s) = conversions s" for m s
    by (induction m arbitrary: s) (simp_all add: addGuardKey_def Let_def)
  assume "addTypes env options t st = Inr st'"
  then show ?thesis using f
    by (auto simp: addTypes_def split: if_splits option.splits)
qed

lemma getGuard_frame:
  "getGuard env options t st = (r, st') \<Longrightarrow> arrays st' = arrays st \<and> conversions st' = conversions st"
  by (auto simp: getGuard_def split: if_splits sum.splits dest: lookupGuard_frame addTypes_frame)

lemma getGuards_frame:
  "getGuards env options ts st = (r, st') \<Longrightarrow> arrays st' = arrays st \<and> conversions st' = conversions st"
proof (induction ts arbitrary: st r st')
  case Nil
  then show ?case by simp
next
  case (Cons t ts)
  obtain r1 st1 where g: "getGuard env options t st = (r1, st1)" by (cases "getGuard env options t st")
  note f1 = getGuard_frame[OF g]
  show ?case
  proof (cases r1)
    case (Inl e)
    then show ?thesis using Cons.prems g f1 by simp
  next
    case (Inr gd)
    obtain r2 st2 where g2: "getGuards env options ts st1 = (r2, st2)" by (cases "getGuards env options ts st1")
    have "st' = st2" using Cons.prems g Inr g2 by (cases r2) auto
    then show ?thesis using Cons.IH[OF g2] f1 by simp
  qed
qed

lemma getGuards_length:
  "getGuards env options ts st = (Inr gs, st') \<Longrightarrow> length gs = length ts"
proof (induction ts arbitrary: st gs st')
  case Nil
  then show ?case by simp
next
  case (Cons t ts)
  then show ?case
    by (auto split: prod.splits sum.splits)
qed

lemma getGuard_noauto:
  "\<not> autoadd options \<Longrightarrow> getGuard env options t st =
     (case guards st t of None \<Rightarrow> (Inl (TypeError (''Unknown type \"'' @ getName t @ ''\"'')), st)
      | Some gs \<Rightarrow> (Inr (intersect gs), st))"
  by (auto simp: getGuard_def lookupGuard_def split: option.splits)

lemma getGuards_noauto_state:
  "\<not> autoadd options \<Longrightarrow> getGuards env options ts st = (r, st') \<Longrightarrow> st' = st"
proof (induction ts arbitrary: r)
  case Nil
  then show ?case by simp
next
  case (Cons t ts)
  then show ?case
    by (auto simp: getGuard_noauto split: option.splits prod.splits sum.splits)
qed

lemma getGuards_noauto_ok:
  "\<not> autoadd options \<Longrightarrow> getGuards env options ts st = (Inr gs, st') \<Longrightarrow> \<forall>t\<in>set ts. guards st t \<noteq> None"
proof (induction ts arbitrary: gs)
  case Nil
  then show ?case by simp
next
  case (Cons t ts)
  then show ?case
    by (auto simp: getGuard_noauto split: option.splits prod.splits sum.splits dest: getGuards_noauto_state)
qed

lemma getGuards_noauto_err:
  "\<not> autoadd options \<Longrightarrow> getGuards env options ts st = (Inl e, st') \<Longrightarrow>
   \<exists>t\<in>set ts. guards st t = None \<and> e = TypeError (''Unknown type \"'' @ getName t @ ''\"'')"
proof (induction ts)
  case Nil
  then show ?case by simp
next
  case (Cons t ts)
  then show ?case
    by (auto simp: getGuard_noauto split: option.splits prod.splits sum.splits dest: getGuards_noauto_state)
qed


subsection \<open>Compiling one parameter\<close>

lemma cp_unfold:
  "convertParamToUnion env options p st =
     (case getGuards env options (fst (expandTypes (conversionsOf st) (arrays st p)))
             (st\<lparr>arrays := (arrays st)(p := fst (expandTypes (conversionsOf st) (arrays st p)))\<rparr>) of
        (Inl e, st2) \<Rightarrow> (Inl e, st2)
      | (Inr gs, st2) \<Rightarrow>
          (Inr (union_guard gs,
                if length (arrays st p) = length (fst (expandTypes (conversionsOf st) (arrays st p)))
                then None
                else Some (matcher gs (snd (expandTypes (conversionsOf st) (arrays st p))))), st2))"
  by (simp add: convertParamToUnion_def Let_def case_prod_beta split: prod.splits sum.splits)

lemma cp_arrays:
  assumes "convertParamToUnion env options p st = (r, st')"
  shows "arrays st' = (arrays st)(p := fst (expandTypes (conversionsOf st) (arrays st p)))"
    and "conversions st' = conversions st"
proof -
  let ?ts = "fst (expandTypes (conversionsOf st) (arrays st p))"
  let ?st1 = "st\<lparr>arrays := (arrays st)(p := ?ts)\<rparr>"
  obtain r2 st2 where g: "getGuards env options ?ts ?st1 = (r2, st2)"
    by (cases "getGuards env options ?ts ?st1")
  have "st' = st2" using assms g by (cases r2) (simp_all add: cp_unfold)
  then show "arrays st' = (arrays st)(p := ?ts)" and "conversions st' = conversions st"
    using getGuards_frame[OF g] by simp_all
qed

lemma cp_slot:
  assumes "convertParamToUnion env options p st = (Inr s, st')"
  shows "\<exists>gs. length gs = length (fst (expandTypes (conversionsOf st) (arrays st p)))
           \<and> fst s = union_guard gs
           \<and> snd s = (if length (arrays st p) = length (fst (expandTypes (conversionsOf st) (arrays st p)))
                      then None
                      else Some (matcher gs (snd (expandTypes (conversionsOf st) (arrays st p)))))"
proof -
  let ?ts = "fst (expandTypes (conversionsOf st) (arrays st p))"
  let ?st1 = "st\<lparr>arrays := (arrays st)(p := ?ts)\<rparr>"
  obtain r2 st2 where g: "getGuards env options ?ts ?st1 = (r2, st2)"
    by (cases "getGuards env options ?ts ?st1")
  then obtain gs where r2: "r2 = Inr gs" using assms by (cases r2) (simp_all add: cp_unfold)
  have "length gs = length ?ts" using getGuards_length g r2 by blast
  then show ?thesis using assms g r2 by (auto simp: cp_unfold)
qed

lemma cp_slotOK:
  assumes "convertParamToUnion env options p st = (Inr s, st')"
  shows "slotOK s"
  using cp_slot[OF assms] expandTypes_length[of "conversionsOf st" "arrays st p"]
  unfolding slotOK_def by (metis order_refl)

lemma cp_noauto:
  assumes na: "\<not> autoadd options" and c: "convertParamToUnion env options p st = (r, st')"
  shows "guards st' = guards st"
    and "\<And>s. r = Inr s \<Longrightarrow> \<forall>t\<in>set (arrays st' p). guards st t \<noteq> None"
    and "\<And>e. r = Inl e \<Longrightarrow> \<exists>t\<in>set (arrays st' p). guards st t = None
            \<and> e = TypeError (''Unknown type \"'' @ getName t @ ''\"'')"
proof -
  let ?ts = "fst (expandTypes (conversionsOf st) (arrays st p))"
  let ?st1 = "st\<lparr>arrays := (arrays st)(p := ?ts)\<rparr>"
  obtain r2 st2 where g: "getGuards env options ?ts ?st1 = (r2, st2)"
    by (cases "getGuards env options ?ts ?st1")
  have st2: "st2 = ?st1" using getGuards_noauto_state[OF na g] .
  have st': "st' = st2" using c g by (cases r2) (simp_all add: cp_unfold)
  show "guards st' = guards st" using st' st2 by simp
  have arr: "arrays st' p = ?ts" using st' st2 by simp
  { fix s assume "r = Inr s"
    then obtain gs where "r2 = Inr gs" using c g by (cases r2) (simp_all add: cp_unfold)
    then show "\<forall>t\<in>set (arrays st' p). guards st t \<noteq> None"
      using getGuards_noauto_ok[OF na] g arr by fastforce }
  { fix e assume "r = Inl e"
    then have "r2 = Inl e" using c g by (cases r2) (simp_all add: cp_unfold)
    then show "\<exists>t\<in>set (arrays st' p). guards st t = None
            \<and> e = TypeError (''Unknown type \"'' @ getName t @ ''\"'')"
      using getGuards_noauto_err[OF na] g arr by fastforce }
qed


lemma cp_unknownType:
  assumes na: "\<not> autoadd options" and c: "convertParamToUnion env options p st = (Inl e, st')"
  shows "\<exists>t\<in>set (arrays st' p). guards st t = None \<and> e = unknownType t"
  using cp_noauto(3)[OF na c] by (simp add: unknownType_def)

lemma cp_grow:
  assumes "convertParamToUnion env options p st = (r, st')"
  shows "set (arrays st q) \<subseteq> set (arrays st' q)"
  using cp_arrays(1)[OF assms] expandTypes_super[of "arrays st p" "conversionsOf st"]
  by (cases "q = p") simp_all

lemma conversionsOf_cong: "conversions st1 = conversions st \<Longrightarrow> conversionsOf st1 = conversionsOf st"
  by (simp add: conversionsOf_def fun_eq_iff)

subsection \<open>The loops of the compilation, seen from the state\<close>

lemma errOf_simps [simp]: "errOf (Inl e) = Some e" "errOf (Inr x) = None"
  by (simp_all add: errOf_def)

lemma visit_append:
  "visit env options (ps @ qs) st =
     (case visit env options ps st of
        (Some e, st1) \<Rightarrow> (Some e, st1)
      | (None, st1) \<Rightarrow> visit env options qs st1)"
  by (induction ps arbitrary: st) (auto split: prod.splits sum.splits)

lemma convertParams_visit:
  "convertParams env options ps st = (r, st') \<Longrightarrow> visit env options ps st = (errOf r, st')"
proof (induction ps arbitrary: st r st')
  case Nil
  then show ?case by auto
next
  case (Cons p ps)
  obtain r1 st1 where c: "convertParamToUnion env options p st = (r1, st1)"
    by (cases "convertParamToUnion env options p st")
  show ?case
  proof (cases r1)
    case (Inl e)
    then show ?thesis using Cons.prems c by auto
  next
    case (Inr s)
    obtain r2 st2 where c2: "convertParams env options ps st1 = (r2, st2)"
      by (cases "convertParams env options ps st1")
    have "st' = st2 \<and> errOf r = errOf r2" using Cons.prems c Inr c2 by (cases r2) auto
    then show ?thesis using Cons.IH[OF c2] c Inr by simp
  qed
qed

lemma getSignatureGuard_visit:
  "getSignatureGuard env options sig st = (r, st') \<Longrightarrow> visit env options sig st = (errOf r, st')"
proof -
  assume a: "getSignatureGuard env options sig st = (r, st')"
  obtain r1 st1 where c: "convertParams env options sig st = (r1, st1)"
    by (cases "convertParams env options sig st")
  have "st' = st1 \<and> errOf r = errOf r1"
    using a c by (cases r1) (auto simp: getSignatureGuard_def Let_def)
  then show ?thesis using convertParams_visit[OF c] by simp
qed

lemma forEachSignature_visit:
  "forEachSignature env options m sigs acc st = (r, st') \<Longrightarrow>
   visit env options (concat sigs) st = (errOf r, st')"
proof (induction sigs arbitrary: acc st r st')
  case Nil
  then show ?case by auto
next
  case (Cons sig sigs)
  obtain maxL minL seq where acc: "acc = (maxL, minL, seq)" by (cases acc)
  obtain r1 st1 where c: "getSignatureGuard env options sig st = (r1, st1)"
    by (cases "getSignatureGuard env options sig st")
  note v = getSignatureGuard_visit[OF c]
  show ?case
  proof (cases r1)
    case (Inl e)
    then show ?thesis using Cons.prems c v acc by (auto simp: visit_append)
  next
    case (Inr gc)
    obtain g conv where gc: "gc = (g, conv)" by (cases gc)
    have "forEachSignature env options m sigs
            (max maxL (length sig), min minL (enat (length sig)), seq @ [(g, (m, Some conv))]) st1 = (r, st')"
      using Cons.prems c Inr gc acc by (simp add: Let_def)
    from Cons.IH[OF this] show ?thesis using v Inr by (simp add: visit_append)
  qed
qed

lemma forInMap_visit:
  "forInMap env options ms m acc st = (r, st') \<Longrightarrow>
   visit env options (concat (concat (map snd m))) st = (errOf r, st')"
proof (induction m arbitrary: acc st r st')
  case Nil
  then show ?case by auto
next
  case (Cons ks m)
  obtain k sigs where ks: "ks = (k, sigs)" by (cases ks)
  obtain r1 st1 where c: "forEachSignature env options (ms k) sigs acc st = (r1, st1)"
    by (cases "forEachSignature env options (ms k) sigs acc st")
  note v = forEachSignature_visit[OF c]
  show ?case
  proof (cases r1)
    case (Inl e)
    then show ?thesis using Cons.prems c v ks by (auto simp: visit_append)
  next
    case (Inr acc1)
    have "forInMap env options ms m acc1 st1 = (r, st')"
      using Cons.prems c Inr ks by simp
    from Cons.IH[OF this] show ?thesis using v Inr ks by (simp add: visit_append)
  qed
qed

lemma visit_arrays:
  "visit env options ps st = (None, st') \<Longrightarrow>
   arrays st' = fold (expandAt (conversionsOf st)) ps (arrays st) \<and> conversions st' = conversions st"
proof (induction ps arbitrary: st)
  case Nil
  then show ?case by simp
next
  case (Cons p ps)
  obtain r1 st1 where c: "convertParamToUnion env options p st = (r1, st1)"
    by (cases "convertParamToUnion env options p st")
  then obtain s where r1: "r1 = Inr s" using Cons.prems by (cases r1) auto
  have v: "visit env options ps st1 = (None, st')" using Cons.prems c r1 by simp
  have a: "arrays st1 = expandAt (conversionsOf st) p (arrays st)" "conversions st1 = conversions st"
    using cp_arrays[OF c] by (simp_all add: expandAt_def)
  show ?case using Cons.IH[OF v] a conversionsOf_cong[OF a(2)] by simp
qed

lemma fold_expandAt_distinct:
  "distinct ps \<Longrightarrow> fold (expandAt convs) ps a p =
     (if p \<in> set ps then fst (expandTypes convs (a p)) else a p)"
  by (induction ps arbitrary: a) (auto simp: expandAt_def)

lemma visit_noauto_guards:
  "\<not> autoadd options \<Longrightarrow> visit env options ps st = (r, st') \<Longrightarrow>
   guards st' = guards st \<and> conversions st' = conversions st"
proof (induction ps arbitrary: st)
  case Nil
  then show ?case by simp
next
  case (Cons p ps)
  obtain r1 st1 where c: "convertParamToUnion env options p st = (r1, st1)"
    by (cases "convertParamToUnion env options p st")
  have g: "guards st1 = guards st" "conversions st1 = conversions st"
    using cp_noauto(1)[OF Cons.prems(1) c] cp_arrays(2)[OF c] by simp_all
  show ?case
  proof (cases r1)
    case (Inl e)
    then show ?thesis using Cons.prems c g by auto
  next
    case (Inr s)
    then have "visit env options ps st1 = (r, st')" using Cons.prems c by simp
    from Cons.IH[OF Cons.prems(1) this] g show ?thesis by simp
  qed
qed

lemma visit_grow:
  "visit env options ps st = (r, st') \<Longrightarrow> set (arrays st q) \<subseteq> set (arrays st' q)"
proof (induction ps arbitrary: st)
  case Nil
  then show ?case by simp
next
  case (Cons p ps)
  obtain r1 st1 where c: "convertParamToUnion env options p st = (r1, st1)"
    by (cases "convertParamToUnion env options p st")
  note g = cp_grow[OF c, of q]
  show ?case
  proof (cases r1)
    case (Inl e)
    then show ?thesis using Cons.prems c g by auto
  next
    case (Inr s)
    then have "visit env options ps st1 = (r, st')" using Cons.prems c by simp
    from Cons.IH[OF this] g show ?thesis by blast
  qed
qed

lemma visit_frame:
  "visit env options ps st = (r, st') \<Longrightarrow> q \<notin> set ps \<Longrightarrow> arrays st' q = arrays st q"
proof (induction ps arbitrary: st)
  case Nil
  then show ?case by simp
next
  case (Cons p ps)
  obtain r1 st1 where c: "convertParamToUnion env options p st = (r1, st1)"
    by (cases "convertParamToUnion env options p st")
  have g: "arrays st1 q = arrays st q" using cp_arrays(1)[OF c] Cons.prems(2) by simp
  show ?case
  proof (cases r1)
    case (Inl e)
    then show ?thesis using Cons.prems c g by auto
  next
    case (Inr s)
    then have "visit env options ps st1 = (r, st')" using Cons.prems c by simp
    from Cons.IH[OF this] g Cons.prems(2) show ?thesis by simp
  qed
qed

lemma visit_noauto_err:
  "\<not> autoadd options \<Longrightarrow> visit env options ps st = (Some e, st') \<Longrightarrow>
   \<exists>q\<in>set ps. \<exists>t\<in>set (arrays st' q). guards st t = None \<and> e = unknownType t"
proof (induction ps arbitrary: st)
  case Nil
  then show ?case by simp
next
  case (Cons p ps)
  obtain r1 st1 where c: "convertParamToUnion env options p st = (r1, st1)"
    by (cases "convertParamToUnion env options p st")
  show ?case
  proof (cases r1)
    case (Inl e1)
    then have "e1 = e" "st1 = st'" using Cons.prems c by auto
    then show ?thesis using cp_unknownType[OF Cons.prems(1)] c Inl by fastforce
  next
    case (Inr s)
    then have "visit env options ps st1 = (Some e, st')" using Cons.prems c by simp
    from Cons.IH[OF Cons.prems(1) this] cp_noauto(1)[OF Cons.prems(1) c]
    show ?thesis by auto
  qed
qed

lemma visit_noauto_ok:
  "\<not> autoadd options \<Longrightarrow> visit env options ps st = (None, st') \<Longrightarrow>
   \<forall>q\<in>set ps. (\<forall>t\<in>set (arrays st' q). guards st t \<noteq> None)
        \<and> set (fst (expandTypes (conversionsOf st) (arrays st q))) \<subseteq> set (arrays st' q)"
proof (induction ps arbitrary: st)
  case Nil
  then show ?case by simp
next
  case (Cons p ps)
  obtain r1 st1 where c: "convertParamToUnion env options p st = (r1, st1)"
    by (cases "convertParamToUnion env options p st")
  then obtain s where r1: "r1 = Inr s" using Cons.prems by (cases r1) auto
  have v: "visit env options ps st1 = (None, st')" using Cons.prems c r1 by simp
  have g: "guards st1 = guards st" using cp_noauto(1)[OF Cons.prems(1) c] .
  have cv: "conversionsOf st1 = conversionsOf st" using conversionsOf_cong cp_arrays(2)[OF c] by blast
  note ih = Cons.IH[OF Cons.prems(1) v, unfolded g cv]
  have a1: "arrays st1 p = fst (expandTypes (conversionsOf st) (arrays st p))"
    using cp_arrays(1)[OF c] by simp
  have ok1: "\<forall>t\<in>set (arrays st1 p). guards st t \<noteq> None"
    using cp_noauto(2)[OF Cons.prems(1) c r1] .
  show ?case
  proof
    fix q assume q: "q \<in> set (p # ps)"
    show "(\<forall>t\<in>set (arrays st' q). guards st t \<noteq> None)
        \<and> set (fst (expandTypes (conversionsOf st) (arrays st q))) \<subseteq> set (arrays st' q)"
    proof (cases "q \<in> set ps")
      case True
      have "set (fst (expandTypes (conversionsOf st) (arrays st q)))
              \<subseteq> set (fst (expandTypes (conversionsOf st) (arrays st1 q)))"
        using expandTypes_mono[OF cp_grow[OF c, of q]] .
      then show ?thesis using ih True by blast
    next
      case False
      then have qp: "q = p" using q by simp
      have "arrays st' p = arrays st1 p" using visit_frame[OF v] False qp by simp
      then show ?thesis using ok1 a1 qp by simp
    qed
  qed
qed

subsection \<open>The candidates that the loops build\<close>

lemma convertParams_slots:
  "convertParams env options ps st = (Inr slots, st') \<Longrightarrow> length slots = length ps \<and> list_all slotOK slots"
proof (induction ps arbitrary: st slots st')
  case Nil
  then show ?case by auto
next
  case (Cons p ps)
  obtain r1 st1 where c: "convertParamToUnion env options p st = (r1, st1)"
    by (cases "convertParamToUnion env options p st")
  then obtain s where r1: "r1 = Inr s" using Cons.prems by (cases r1) auto
  obtain r2 st2 where c2: "convertParams env options ps st1 = (r2, st2)"
    by (cases "convertParams env options ps st1")
  then obtain ss where r2: "r2 = Inr ss" using Cons.prems c r1 by (cases r2) auto
  have "slots = s # ss" using Cons.prems c r1 c2 r2 by simp
  then show ?case using Cons.IH[OF c2[unfolded r2]] cp_slotOK[OF c[unfolded r1]] by simp
qed

lemma getSignatureGuard_cand:
  "getSignatureGuard env options sig st = (Inr (g, conv), st') \<Longrightarrow> candOK (length sig) (g, (m, Some conv))"
proof -
  assume a: "getSignatureGuard env options sig st = (Inr (g, conv), st')"
  obtain r1 st1 where c: "convertParams env options sig st = (r1, st1)"
    by (cases "convertParams env options sig st")
  then obtain slots where r1: "r1 = Inr slots" using a by (cases r1) (auto simp: getSignatureGuard_def)
  have "g = tuple (map fst slots)" "conv = applier (map snd slots)"
    using a c r1 by (auto simp: getSignatureGuard_def Let_def)
  then show ?thesis using convertParams_slots[OF c[unfolded r1]]
    unfolding candOK_def by auto
qed




lemma forEachSignature_cands:
  "forEachSignature env options m sigs (maxL, minL, seq) st = (Inr (maxL', minL', seq'), st') \<Longrightarrow>
   maxL \<le> maxL' \<and> (\<forall>sig\<in>set sigs. length sig \<le> maxL') \<and>
   (\<exists>cs. seq' = seq @ cs \<and> list_all2 (\<lambda>c sig. candOK (length sig) c \<and> fst (snd c) = m) cs sigs)"
proof (induction sigs arbitrary: maxL minL seq st)
  case Nil
  then show ?case by auto
next
  case (Cons sig sigs)
  obtain r1 st1 where c: "getSignatureGuard env options sig st = (r1, st1)"
    by (cases "getSignatureGuard env options sig st")
  then obtain g conv where r1: "r1 = Inr (g, conv)" using Cons.prems by (cases r1) (auto simp: Let_def)
  have step: "forEachSignature env options m sigs
            (max maxL (length sig), min minL (enat (length sig)), seq @ [(g, (m, Some conv))]) st1
          = (Inr (maxL', minL', seq'), st')"
    using Cons.prems c r1 by (simp add: Let_def)
  from Cons.IH[OF step] obtain cs where ih: "max maxL (length sig) \<le> maxL'"
      "\<forall>sig\<in>set sigs. length sig \<le> maxL'" "seq' = (seq @ [(g, (m, Some conv))]) @ cs"
      "list_all2 (\<lambda>c sig. candOK (length sig) c \<and> fst (snd c) = m) cs sigs" by blast
  have "candOK (length sig) (g, (m, Some conv))"
    using getSignatureGuard_cand c r1 by blast
  then have "list_all2 (\<lambda>c sig. candOK (length sig) c \<and> fst (snd c) = m) ((g, (m, Some conv)) # cs) (sig # sigs)"
    using ih(4) by simp
  moreover have "seq' = seq @ ((g, (m, Some conv)) # cs)" using ih(3) by simp
  ultimately show ?case using ih(1,2) by auto
qed

lemma forInMap_cands:
  "forInMap env options ms m (maxL, minL, seq) st = (Inr (maxL', minL', seq'), st') \<Longrightarrow>
   maxL \<le> maxL' \<and> (\<forall>ks\<in>set (keyedSignatures m). length (snd ks) \<le> maxL') \<and>
   (\<exists>cs. seq' = seq @ cs \<and>
      list_all2 (\<lambda>c ks. candOK (length (snd ks)) c \<and> fst (snd c) = ms (fst ks)) cs (keyedSignatures m))"
proof (induction m arbitrary: maxL minL seq st)
  case Nil
  then show ?case by (auto simp: keyedSignatures_def)
next
  case (Cons ks m)
  obtain k sigs where ks: "ks = (k, sigs)" by (cases ks)
  obtain r1 st1 where c: "forEachSignature env options (ms k) sigs (maxL, minL, seq) st = (r1, st1)"
    by (cases "forEachSignature env options (ms k) sigs (maxL, minL, seq) st")
  then obtain maxL1 minL1 seq1 where r1: "r1 = Inr (maxL1, minL1, seq1)"
    using Cons.prems ks by (cases r1) auto
  from forEachSignature_cands[OF c[unfolded r1]] obtain cs1 where f:
    "maxL \<le> maxL1" "\<forall>sig\<in>set sigs. length sig \<le> maxL1" "seq1 = seq @ cs1"
    "list_all2 (\<lambda>c sig. candOK (length sig) c \<and> fst (snd c) = ms k) cs1 sigs" by blast
  have step: "forInMap env options ms m (maxL1, minL1, seq1) st1 = (Inr (maxL', minL', seq'), st')"
    using Cons.prems c r1 ks by simp
  from Cons.IH[OF step] obtain cs2 where ih: "maxL1 \<le> maxL'"
    "\<forall>ks\<in>set (keyedSignatures m). length (snd ks) \<le> maxL'" "seq' = seq1 @ cs2"
    "list_all2 (\<lambda>c ks. candOK (length (snd ks)) c \<and> fst (snd c) = ms (fst ks)) cs2 (keyedSignatures m)"
    by blast
  have k1: "keyedSignatures (ks # m) = map (Pair k) sigs @ keyedSignatures m"
    by (simp add: keyedSignatures_def ks)
  have "list_all2 (\<lambda>c ks. candOK (length (snd ks)) c \<and> fst (snd c) = ms (fst ks)) cs1 (map (Pair k) sigs)"
    using f(4) by (simp add: list_all2_map2)
  then have "list_all2 (\<lambda>c ks. candOK (length (snd ks)) c \<and> fst (snd c) = ms (fst ks)) (cs1 @ cs2) (keyedSignatures (ks # m))"
    using ih(4) k1 by (simp add: list_all2_appendI)
  moreover have "seq' = seq @ (cs1 @ cs2)" using ih(3) f(3) by simp
  moreover have "\<forall>ks\<in>set (keyedSignatures (ks # m)). length (snd ks) \<le> maxL'"
    using k1 f(2) ih(1,2) by auto
  moreover have "maxL \<le> maxL'" using f(1) ih(1) by simp
  ultimately show ?case by blast
qed

lemma candOK_0: "candOK 0 c \<Longrightarrow> fst c = tuple [] \<and> snd (snd c) = Some (applier [])"
  by (auto simp: candOK_def)

lemma candOK_invoke:
  assumes "candOK n c" and "fst c args"
  shows "\<exists>conv args'. snd (snd c) = Some conv \<and> conv args = Some args' \<and> length args' = length args
      \<and> invoke (fst (snd c)) (snd (snd c)) args = Inr (fst (snd c) args')"
proof -
  obtain slots where s: "list_all slotOK slots" "fst c = tuple (map fst slots)"
     "snd (snd c) = Some (applier (map snd slots))" using assms(1) by (auto simp: candOK_def)
  obtain args' where "applier (map snd slots) args = Some args'" "length args' = length args"
    using applier_some[OF s(1)] assms(2) s(2) by auto
  then show ?thesis using s(3) by (simp add: invoke_def)
qed

lemma getSignatureGuard_nil:
  "getSignatureGuard env options [] st = (Inr (tuple [], applier []), st)"
  by (simp add: getSignatureGuard_def)

lemma forEachSignature_nullary:
  "\<forall>sig\<in>set sigs. sig = [] \<Longrightarrow>
   \<exists>minL'. forEachSignature env options mth sigs (maxL, minL, seq) st =
     (Inr (maxL, minL', seq @ map (\<lambda>sig. (tuple [], (mth, Some (applier [])))) sigs), st)"
proof (induction sigs arbitrary: minL seq)
  case Nil
  then show ?case by simp
next
  case (Cons sig sigs)
  then have s: "sig = []" by simp
  obtain minL' where "forEachSignature env options mth sigs
       (maxL, min minL (enat 0), seq @ [(tuple [], (mth, Some (applier [])))]) st =
     (Inr (maxL, minL', (seq @ [(tuple [], (mth, Some (applier [])))])
         @ map (\<lambda>sig. (tuple [], (mth, Some (applier [])))) sigs), st)"
    using Cons.IH[of "min minL (enat 0)" "seq @ [(tuple [], (mth, Some (applier [])))]"] Cons.prems by auto
  then show ?case using s by (simp add: getSignatureGuard_nil)
qed

lemma forInMap_nullary:
  "\<forall>ks\<in>set (keyedSignatures m). snd ks = [] \<Longrightarrow>
   \<exists>minL'. forInMap env options ms m (maxL, minL, seq) st =
     (Inr (maxL, minL', seq @ map (\<lambda>ks. (tuple [], (ms (fst ks), Some (applier [])))) (keyedSignatures m)), st)"
proof (induction m arbitrary: minL seq)
  case Nil
  then show ?case by (simp add: keyedSignatures_def)
next
  case (Cons ks m)
  obtain k sigs where ks: "ks = (k, sigs)" by (cases ks)
  have k1: "keyedSignatures (ks # m) = map (Pair k) sigs @ keyedSignatures m"
    by (simp add: keyedSignatures_def ks)
  then have a: "\<forall>sig\<in>set sigs. sig = []" and b: "\<forall>ks\<in>set (keyedSignatures m). snd ks = []"
    using Cons.prems by force+
  obtain minL1 where f: "forEachSignature env options (ms k) sigs (maxL, minL, seq) st =
     (Inr (maxL, minL1, seq @ map (\<lambda>sig. (tuple [], (ms k, Some (applier [])))) sigs), st)"
    using forEachSignature_nullary[OF a] by blast
  obtain minL2 where g: "forInMap env options ms m
       (maxL, minL1, seq @ map (\<lambda>sig. (tuple [], (ms k, Some (applier [])))) sigs) st =
     (Inr (maxL, minL2, (seq @ map (\<lambda>sig. (tuple [], (ms k, Some (applier [])))) sigs)
        @ map (\<lambda>ks. (tuple [], (ms (fst ks), Some (applier [])))) (keyedSignatures m)), st)"
    using Cons.IH[OF b] by blast
  show ?case using f g ks k1 by (simp add: comp_def)
qed

subsection \<open>The compiled function\<close>

lemma find_none_nullary:
  "\<forall>c\<in>set sequence. fst c = tuple [] \<Longrightarrow> args \<noteq> [] \<Longrightarrow> find (\<lambda>c. fst c args) sequence = None"
  by (induction sequence) (auto simp: tuple_nil)

lemma firstMatch_index:
  "i < length sequence \<Longrightarrow> fst (sequence ! i) args \<Longrightarrow> \<forall>j<i. \<not> fst (sequence ! j) args \<Longrightarrow>
   firstMatch sequence args = Some (sequence ! i)"
  unfolding firstMatch_def find_Some_iff by blast

lemma makeFunction_call:
  assumes ne: "sequence \<noteq> []"
    and nul: "maxLength = 0 \<longrightarrow> (\<forall>c\<in>set sequence. candOK 0 c)"
  shows "\<exists>fn. makeFunction sequence minLength maxLength = Inr fn \<and>
     (\<forall>args. fn args =
        (case firstMatch sequence args of
           None \<Rightarrow> Inl (noMatchError sequence maxLength args)
         | Some c \<Rightarrow> invoke (fst (snd c)) (snd (snd c)) args))"
proof -
  obtain g0 m0 c0 rest where seq: "sequence = (g0, (m0, c0)) # rest"
    using ne by (cases sequence) auto
  show ?thesis
  proof (cases "maxLength = 0")
    case True
    then have all0: "\<forall>c\<in>set sequence. fst c = tuple [] \<and> snd (snd c) = Some (applier [])"
      using nul candOK_0 by blast
    then have g0: "g0 = tuple []" and c0: "c0 = Some (applier [])" using seq by auto
    have "\<forall>args. (if length args > 0 then Inl noAlternatives else Inr (m0 [])) =
        (case firstMatch sequence args of
           None \<Rightarrow> Inl (noMatchError sequence maxLength args)
         | Some c \<Rightarrow> invoke (fst (snd c)) (snd (snd c)) args)"
    proof
      fix args :: "val list"
      show "(if length args > 0 then Inl noAlternatives else Inr (m0 [])) =
        (case firstMatch sequence args of
           None \<Rightarrow> Inl (noMatchError sequence maxLength args)
         | Some c \<Rightarrow> invoke (fst (snd c)) (snd (snd c)) args)"
      proof (cases "args = []")
        case True
        then show ?thesis by (simp add: firstMatch_def seq g0 c0 invoke_def)
      next
        case False
        then have "find (\<lambda>c. fst c args) sequence = None"
          using find_none_nullary all0 by blast
        then show ?thesis using False \<open>maxLength = 0\<close> by (simp add: firstMatch_def noMatchError_def)
      qed
    qed
    then show ?thesis using True seq by (simp add: makeFunction_def)
  next
    case False
    show ?thesis
    proof (cases rest)
      case Nil
      then show ?thesis using False seq
        by (auto simp: makeFunction_def firstMatch_def noMatchError_def)
    next
      case (Cons c1 rest1)
      obtain g1 m1 cv1 where c1: "c1 = (g1, (m1, cv1))" by (cases c1) auto
      show ?thesis
      proof (cases rest1)
        case Nil
        then show ?thesis using False seq Cons c1
          by (auto simp: makeFunction_def firstMatch_def noMatchError_def)
      next
        case (Cons c2 rest2)
        then have len: "length sequence \<noteq> 1 \<and> length sequence \<noteq> 2 \<and> \<not> length sequence \<le> 2"
          using seq \<open>rest = c1 # rest1\<close> by simp
        have "makeFunction sequence minLength maxLength =
            Inr (\<lambda>args. case choose_alt sequence args of
                           Inl e \<Rightarrow> Inl e
                         | Inr (method, conv) \<Rightarrow> invoke method conv args)"
          using False len seq \<open>rest = c1 # rest1\<close> c1 by (simp add: makeFunction_def)
        moreover have "(case choose_alt sequence args of
                           Inl e \<Rightarrow> Inl e
                         | Inr (method, conv) \<Rightarrow> invoke method conv args) =
           (case firstMatch sequence args of
             None \<Rightarrow> Inl (noMatchError sequence maxLength args)
           | Some c \<Rightarrow> invoke (fst (snd c)) (snd (snd c)) args)" for args
          using False len
          by (simp add: choose_alt_find firstMatch_def noMatchError_def case_prod_beta split: option.splits)
        ultimately show ?thesis by simp
      qed
    qed
  qed
qed

lemma typed_function_compiled:
  assumes "typed_function env options target st = (Inr f, st')"
  shows "\<exists>m maxLength minLength sequence.
     signatures target = Some m \<and>
     forInMap env options (methods target) m (0, \<infinity>, []) st = (Inr (maxLength, minLength, sequence), st') \<and>
     makeFunction sequence minLength maxLength = Inr (call f) \<and>
     fnLength f = maxLength \<and> sequence \<noteq> [] \<and>
     candidatesOf env options target st = sequence"
proof -
  obtain m where m: "signatures target = Some m"
    using assms by (cases "signatures target") (auto simp: typed_function_def Let_def)
  obtain r st1 where l: "forInMap env options (methods target) m (0, \<infinity>, []) st = (r, st1)"
    by (cases "forInMap env options (methods target) m (0, \<infinity>, []) st")
  then obtain maxLength minLength sequence where r: "r = Inr (maxLength, minLength, sequence)"
    using assms m by (cases r) (auto simp: typed_function_def Let_def)
  obtain fn where mk: "makeFunction sequence minLength maxLength = Inr fn"
    using assms m l r by (cases "makeFunction sequence minLength maxLength") (auto simp: typed_function_def Let_def)
  have f: "f = \<lparr>call = fn, fnLength = maxLength, fnName = (case instanceName target of Some n \<Rightarrow> n | None \<Rightarrow> ctorName target)\<rparr>"
     and st: "st' = st1"
    using assms m l r mk by (auto simp: typed_function_def Let_def)
  have "sequence \<noteq> []" using mk by (auto simp: makeFunction_def)
  then show ?thesis using m l r mk f st by (simp add: candidatesOf_def)
qed

lemma compiled_call:
  assumes "typed_function env options target st = (Inr f, st')"
  shows "call f args =
        (case firstMatch (candidatesOf env options target st) args of
           None \<Rightarrow> Inl (noMatchError (candidatesOf env options target st) (fnLength f) args)
         | Some c \<Rightarrow> invoke (fst (snd c)) (snd (snd c)) args)"
proof -
  from typed_function_compiled[OF assms] obtain m maxLength minLength sequence where h:
     "signatures target = Some m"
     "forInMap env options (methods target) m (0, \<infinity>, []) st = (Inr (maxLength, minLength, sequence), st')"
     "makeFunction sequence minLength maxLength = Inr (call f)"
     "fnLength f = maxLength" "sequence \<noteq> []"
     "candidatesOf env options target st = sequence" by blast
  from forInMap_cands[OF h(2)] have
     le: "\<forall>ks\<in>set (keyedSignatures m). length (snd ks) \<le> maxLength" and
     la: "list_all2 (\<lambda>c ks. candOK (length (snd ks)) c \<and> fst (snd c) = methods target (fst ks)) sequence (keyedSignatures m)"
    by auto
  have "maxLength = 0 \<longrightarrow> (\<forall>c\<in>set sequence. candOK 0 c)"
  proof (intro impI ballI)
    fix c assume z: "maxLength = 0" and "c \<in> set sequence"
    then obtain i where i: "i < length sequence" "c = sequence ! i" by (auto simp: in_set_conv_nth)
    then have "candOK (length (snd (keyedSignatures m ! i))) c" "i < length (keyedSignatures m)"
      using la by (auto simp: list_all2_conv_all_nth)
    moreover have "length (snd (keyedSignatures m ! i)) \<le> maxLength"
      using le \<open>i < length (keyedSignatures m)\<close> by auto
    ultimately show "candOK 0 c" using z by simp
  qed
  from makeFunction_call[OF h(5) this, of minLength] h(3,4,6) show ?thesis by auto
qed

lemma compiled_cands:
  assumes "typed_function env options target st = (Inr f, st')"
  shows "\<exists>m. signatures target = Some m \<and>
     list_all2 (\<lambda>c ks. candOK (length (snd ks)) c \<and> fst (snd c) = methods target (fst ks))
       (candidatesOf env options target st) (keyedSignatures m)"
proof -
  from typed_function_compiled[OF assms] obtain m maxLength minLength sequence where h:
     "signatures target = Some m"
     "forInMap env options (methods target) m (0, \<infinity>, []) st = (Inr (maxLength, minLength, sequence), st')"
     "candidatesOf env options target st = sequence" by blast
  from forInMap_cands[OF h(2)] h(1,3) show ?thesis by auto
qed

lemma compiled_visit:
  assumes "typed_function env options target st = (Inr f, st')" and "signatures target = Some m"
  shows "visit env options (allParameters m) st = (None, st')"
proof -
  from typed_function_compiled[OF assms(1)] assms(2) obtain maxLength minLength sequence where
     "forInMap env options (methods target) m (0, \<infinity>, []) st = (Inr (maxLength, minLength, sequence), st')"
    by auto
  from forInMap_visit[OF this] show ?thesis by (simp add: allParameters_def)
qed



lemma invoke_not_unknownType: "invoke m c args \<noteq> Inl (unknownType u)"
  by (simp add: invoke_def unknownType_def split: option.splits)

lemma compiled_not_unknownType:
  assumes "typed_function env options target st = (Inr f, st')"
  shows "call f args \<noteq> Inl (unknownType u)"
  using compiled_call[OF assms, of args] invoke_not_unknownType
  by (auto simp: noMatchError_def noAlternatives_def unknownType_def split: option.splits)

lemma function_visit:
  assumes "signatures target = Some m"
  shows "\<exists>r st1. visit env options (allParameters m) st = (r, st1)
      \<and> (case r of Some e \<Rightarrow> typed_function env options target st = (Inl e, st1)
          | None \<Rightarrow> (\<exists>f. typed_function env options target st = (Inr f, st1))
                   \<or> typed_function env options target st = (Inl EngineTypeError, st1))"
proof -
  obtain r st1 where l: "forInMap env options (methods target) m (0, \<infinity>, []) st = (r, st1)"
    by (cases "forInMap env options (methods target) m (0, \<infinity>, []) st")
  have v: "visit env options (allParameters m) st = (errOf r, st1)"
    using forInMap_visit[OF l] by (simp add: allParameters_def)
  show ?thesis
  proof (cases r)
    case (Inl e)
    then show ?thesis using v l assms by (simp add: typed_function_def)
  next
    case (Inr acc)
    obtain maxLength minLength sequence where acc: "acc = (maxLength, minLength, sequence)" by (cases acc)
    have "(\<exists>f. typed_function env options target st = (Inr f, st1))
                   \<or> typed_function env options target st = (Inl EngineTypeError, st1)"
    proof (cases "makeFunction sequence minLength maxLength")
      case (Inl e)
      then have "e = EngineTypeError"
        by (auto simp: makeFunction_def split: list.splits if_splits prod.splits)
      then show ?thesis using Inl l Inr acc assms by (simp add: typed_function_def)
    next
      case (Inr fn)
      then show ?thesis using l \<open>r = Inr acc\<close> acc assms by (simp add: typed_function_def)
    qed
    then show ?thesis using v Inr by simp
  qed
qed

subsection \<open>The examples, evaluated\<close>

lemmas ex_defs = testEnv_def DefaultTypes_def ComplexClass_def defaultTypesInfo_def complexInfo_def
     guardsOf_def conversionsOf_def testState_def testGuards_def testConversions_def Unknown_def defaultOptions_def
     Times_def timesMap_def timesArrays_def

lemmas compile_defs = typed_function_def getSignatureGuard_def convertParamToUnion_def expandTypes_def pushConversion_def
   getGuard_def lookupGuard_def makeFunction_def

lemma add_registryState:
  "add testEnv defaultOptions [DefaultTypes, ComplexClass] emptyState = Inr registryState"
  by (simp add: addTypes_def addConversions_def addGuardKey_def emptyState_def registryState_def
      ex_defs Let_def)

lemma times_decorated:
  "signature [] [Ctor ''Number'', Ctor ''Number''] True ''number'' None registryState = (m1, st1) \<Longrightarrow>
   signature [] [ComplexClass, ComplexClass] True ''complex'' m1 st1 = (Some timesMap, testState)"
  by (auto simp: signature_def applySignature_def setProperty_def arrayIndex_def isDigit_def
      registryState_def ex_defs Let_def fun_eq_iff)

lemma setProperty_index_first:
  "setProperty ''2'' v [(''10'', a), (''number'', b)] = [(''2'', v), (''10'', a), (''number'', b)]
   \<and> setProperty ''complex'' v [(''10'', a), (''number'', b)] = [(''10'', a), (''number'', b), (''complex'', v)]
   \<and> setProperty ''number'' v [(''10'', a), (''number'', b)] = [(''10'', a), (''number'', v)]
   \<and> setProperty ''01'' v [(''10'', a), (''number'', b)] = [(''10'', a), (''number'', b), (''01'', v)]"
  by (simp add: setProperty_def arrayIndex_def isDigit_def)

lemma applySignature_closure:
  "fst (applySignature [] designParamTypes True key meta st) = map OneType designParamTypes"
  by (simp add: applySignature_def Let_def split: prod.splits)

lemma times_call:
  "\<exists>f st'. typed_function testEnv defaultOptions (Times ms) testState = (Inr f, st')
     \<and> call f [Num 3, Num 6] = Inr (ms ''number'' [Num 3, Num 6])
     \<and> call f [Num 3, Inst ''Complex'' [Num 0, Num 6]]
         = Inr (ms ''complex'' [Inst ''Complex'' [Num 3, Num 0], Inst ''Complex'' [Num 0, Num 6]])
     \<and> call f [Num 3, Str ''6''] = Inl (TypeError ''No alternatives were matched'')
     \<and> call f [Str ''a''] = Inl (TypeError ''No alternatives were matched'')"
  by (simp add: ex_defs compile_defs Let_def invoke_def defaultGuard_def I_def noAlternatives_def)


lemma times_generalScan:
  "generalScan (candidatesOf testEnv defaultOptions (Times ms) testState) [Num 3, Inst ''Complex'' [Num 0, Num 6]]
     = Inr (ms ''complex'' [Inst ''Complex'' [Num 3, Num 0], Inst ''Complex'' [Num 0, Num 6]])"
  by (simp add: ex_defs candidatesOf_def getSignatureGuard_def convertParamToUnion_def expandTypes_def
      pushConversion_def getGuard_def lookupGuard_def Let_def defaultGuard_def generalScan_def invoke_def I_def)

lemma times_state:
  "snd (typed_function testEnv defaultOptions (Times ms) testState) = testState\<lparr>arrays := timesArrays2\<rparr>"
  by (simp add: ex_defs compile_defs Let_def timesArrays2_def fun_eq_iff)

lemma times_second_call:
  "\<exists>f2. typed_function testEnv defaultOptions (Times ms) (testState\<lparr>arrays := timesArrays2\<rparr>)
            = (Inr f2, testState\<lparr>arrays := timesArrays2\<rparr>)
     \<and> call f2 [Num 3, Inst ''Complex'' [Num 0, Num 6]]
         = Inr (ms ''complex'' [Num 3, Inst ''Complex'' [Num 0, Num 6]])"
  by (simp add: ex_defs compile_defs Let_def timesArrays2_def fun_eq_iff invoke_def defaultGuard_def I_def)

lemma times_param:
  "\<exists>r st1. convertParamToUnion testEnv defaultOptions 2 testState = (r, st1)"
  by (cases "convertParamToUnion testEnv defaultOptions 2 testState") blast

lemma twoNumbers_compiles:
  "\<exists>f st'. typed_function testEnv defaultOptions twoNumbers testState = (Inr f, st')"
  by (simp add: ex_defs compile_defs twoNumbers_def Let_def)

lemma twoNumbers_candidates:
  "length (candidatesOf testEnv defaultOptions twoNumbers testState) = 2
   \<and> fst (candidatesOf testEnv defaultOptions twoNumbers testState ! 0) [Num 3, Num 6]
   \<and> fst (candidatesOf testEnv defaultOptions twoNumbers testState ! 1) [Num 3, Num 6]
   \<and> fst (snd (candidatesOf testEnv defaultOptions twoNumbers testState ! 0)) = tagMethods ''first''
   \<and> snd (snd (candidatesOf testEnv defaultOptions twoNumbers testState ! 0)) = Some (applier [None, None])"
  by (simp add: ex_defs candidatesOf_def getSignatureGuard_def convertParamToUnion_def expandTypes_def pushConversion_def
   getGuard_def lookupGuard_def twoNumbers_def Let_def defaultGuard_def)

lemma chain_param:
  "\<exists>g mo st'. convertParamToUnion testEnv defaultOptions 2 chainState = (Inr (g, mo), st')
      \<and> arrays st' 2 = [ComplexClass, Ctor ''Number'']"
  by (simp add: chainState_def ex_defs convertParamToUnion_def expandTypes_def pushConversion_def
       getGuard_def lookupGuard_def Let_def)

lemma chain_edges:
  "arrays chainState 2 = [ComplexClass]
   \<and> map fromType (conversionsOf chainState ComplexClass) = [Ctor ''Number'']
   \<and> map fromType (conversionsOf chainState (Ctor ''Number'')) = [Ctor ''String'']"
  by (simp add: chainState_def ex_defs)




section \<open>The claims\<close>

text \<open>
  C1. End to end, on the classes of the tests: the registry is the one \<open>add\<close> builds from
  \<open>DefaultTypes\<close> and \<open>Complex\<close>, the signature map is the one the decorators of \<open>Times\<close>
  build; the candidates are \<open>number\<close> over two numbers and \<open>complex\<close>
  over two \<open>Complex\<close> (the pair type), with the conversion from a number \<open>a\<close> to
  \<open>Complex(a, 0)\<close>. Whatever the two implementations \<open>ms\<close> are, the compiled callable gives
  \<open>(3, 6)\<close> to the number implementation, gives \<open>(3, Complex(0, 6))\<close> to the complex
  implementation as \<open>(Complex(3, 0), Complex(0, 6))\<close>, and fails on \<open>(3, "6")\<close> with the
  error that no alternative matched. With the implementations of the tests the two results
  are \<open>18\<close> and \<open>Complex(0, 18)\<close>.
\<close>

theorem end_to_end_times:
  "add testEnv defaultOptions [DefaultTypes, ComplexClass] emptyState = Inr registryState
   \<and> signature [] [ComplexClass, ComplexClass] True ''complex''
         (fst (signature [] [Ctor ''Number'', Ctor ''Number''] True ''number'' None registryState))
         (snd (signature [] [Ctor ''Number'', Ctor ''Number''] True ''number'' None registryState))
       = (Some timesMap, testState)
   \<and> (\<exists>f st'. typed_function testEnv defaultOptions (Times ms) testState = (Inr f, st')
        \<and> call f [Num 3, Num 6] = Inr (ms ''number'' [Num 3, Num 6])
        \<and> call f [Num 3, Inst ''Complex'' [Num 0, Num 6]]
            = Inr (ms ''complex'' [Inst ''Complex'' [Num 3, Num 0], Inst ''Complex'' [Num 0, Num 6]])
        \<and> call f [Num 3, Str ''6''] = Inl (TypeError ''No alternatives were matched''))
   \<and> (\<exists>f st'. typed_function testEnv defaultOptions (Times timesMethods) testState = (Inr f, st')
        \<and> call f [Num 3, Num 6] = Inr (Num 18)
        \<and> call f [Num 3, Inst ''Complex'' [Num 0, Num 6]] = Inr (Inst ''Complex'' [Num 0, Num 18])
        \<and> call f [Num 3, Str ''6''] = Inl (TypeError ''No alternatives were matched''))"
proof -
  obtain f st' where f: "typed_function testEnv defaultOptions (Times ms) testState = (Inr f, st')"
      "call f [Num 3, Num 6] = Inr (ms ''number'' [Num 3, Num 6])"
      "call f [Num 3, Inst ''Complex'' [Num 0, Num 6]]
         = Inr (ms ''complex'' [Inst ''Complex'' [Num 3, Num 0], Inst ''Complex'' [Num 0, Num 6]])"
      "call f [Num 3, Str ''6''] = Inl (TypeError ''No alternatives were matched'')"
    using times_call[of ms] by blast
  obtain g st2 where g: "typed_function testEnv defaultOptions (Times timesMethods) testState = (Inr g, st2)"
      "call g [Num 3, Num 6] = Inr (timesMethods ''number'' [Num 3, Num 6])"
      "call g [Num 3, Inst ''Complex'' [Num 0, Num 6]]
         = Inr (timesMethods ''complex'' [Inst ''Complex'' [Num 3, Num 0], Inst ''Complex'' [Num 0, Num 6]])"
      "call g [Num 3, Str ''6''] = Inl (TypeError ''No alternatives were matched'')"
    using times_call[of timesMethods] by blast
  have "call g [Num 3, Num 6] = Inr (Num 18)"
       "call g [Num 3, Inst ''Complex'' [Num 0, Num 6]] = Inr (Inst ''Complex'' [Num 0, Num 18])"
    using g(2,3) by (simp_all add: timesMethods_def)
  then show ?thesis using add_registryState times_decorated[OF prod.collapse[symmetric]] f g(1,4) by blast
qed

text \<open>
  C2. First-match precedence. For every compiled function and every argument list, if the
  candidate at position \<open>i\<close> of the sequence accepts the arguments and no candidate before
  it does, the call converts the arguments with that candidate's converter and returns
  what that candidate's method returns on them. The result depends on the state and the
  arguments only, so it is the same on every call.
\<close>

theorem first_match_precedence:
  assumes "typed_function env options target st = (Inr f, st')"
    and "i < length (candidatesOf env options target st)"
    and "fst (candidatesOf env options target st ! i) args"
    and "\<forall>j<i. \<not> fst (candidatesOf env options target st ! j) args"
  shows "\<exists>conv args'. snd (snd (candidatesOf env options target st ! i)) = Some conv
           \<and> conv args = Some args'
           \<and> call f args = Inr (fst (snd (candidatesOf env options target st ! i)) args')"
proof -
  let ?cs = "candidatesOf env options target st"
  have fm: "firstMatch ?cs args = Some (?cs ! i)"
    using firstMatch_index assms(2,3,4) by blast
  obtain m where "list_all2 (\<lambda>c ks. candOK (length (snd ks)) c \<and> fst (snd c) = methods target (fst ks))
       ?cs (keyedSignatures m)" using compiled_cands[OF assms(1)] by blast
  then have "candOK (length (snd (keyedSignatures m ! i))) (?cs ! i)"
    using assms(2) by (auto simp: list_all2_conv_all_nth)
  from candOK_invoke[OF this assms(3)] show ?thesis
    using compiled_call[OF assms(1), of args] fm by auto
qed

text \<open>
  The instance of C2 that the specification names: two candidates that both accept two
  numbers; the call runs the first one, which returns the tag of its key.
\<close>

theorem first_match_precedence_witness:
  "\<exists>f st'. typed_function testEnv defaultOptions twoNumbers testState = (Inr f, st')
     \<and> fst (candidatesOf testEnv defaultOptions twoNumbers testState ! 0) [Num 3, Num 6]
     \<and> fst (candidatesOf testEnv defaultOptions twoNumbers testState ! 1) [Num 3, Num 6]
     \<and> call f [Num 3, Num 6] = Inr (Inst ''first'' [Num 3, Num 6])"
proof -
  obtain f st' where c: "typed_function testEnv defaultOptions twoNumbers testState = (Inr f, st')"
    using twoNumbers_compiles by blast
  have "\<exists>conv args'. snd (snd (candidatesOf testEnv defaultOptions twoNumbers testState ! 0)) = Some conv
           \<and> conv [Num 3, Num 6] = Some args'
           \<and> call f [Num 3, Num 6] = Inr (fst (snd (candidatesOf testEnv defaultOptions twoNumbers testState ! 0)) args')"
    using first_match_precedence[OF c, of 0 "[Num 3, Num 6]"] twoNumbers_candidates by simp
  then have "call f [Num 3, Num 6] = Inr (Inst ''first'' [Num 3, Num 6])"
    using twoNumbers_candidates by (auto simp: tagMethods_def)
  then show ?thesis using c twoNumbers_candidates by blast
qed




text \<open>
  C8. A class without any signature metadata is rejected with \<open>No signatures provided\<close>.
  A signature map that is there but empty, or whose keys have no signatures, passes the
  test \<open>Object.keys(map).length < 0\<close>, which is never true, and \<open>function\<close> fails later, in
  \<open>_makeFunction\<close>, with the engine's error on \<open>sequence[0]\<close>.
\<close>

theorem function_empty_signature_map:
  "fst (typed_function env options (target\<lparr>signatures := None\<rparr>) st) = Inl (Error ''No signatures provided'')
   \<and> fst (typed_function env options (target\<lparr>signatures := Some []\<rparr>) st) = Inl EngineTypeError
   \<and> fst (typed_function env options (target\<lparr>signatures := Some [(key, [])]\<rparr>) st) = Inl EngineTypeError"
  by (simp add: typed_function_def makeFunction_def Let_def)

text \<open>
  C9. The nullary path and the paths for one and two candidates agree with the general
  scan on every compiled function and every argument list: either both give the same
  result, which fixes the candidate chosen and the converted arguments, or no candidate
  accepts and both fail, the fast path with the fixed message and the scan with the error
  of \<open>choose\<close>.
\<close>

theorem fast_paths_agree:
  assumes "typed_function env options target st = (Inr f, st')"
  shows "call f args = generalScan (candidatesOf env options target st) args
       \<or> (call f args = Inl (TypeError ''No alternatives were matched'')
          \<and> firstMatch (candidatesOf env options target st) args = None
          \<and> generalScan (candidatesOf env options target st) args = Inl (NoMatch (map typeName args)))"
  using compiled_call[OF assms, of args]
  by (auto simp: generalScan_def choose_alt_find firstMatch_def noMatchError_def noAlternatives_def
      split: option.splits)

theorem fast_paths_agree_witness:
  "\<exists>f st'. typed_function testEnv defaultOptions (Times tagMethods) testState = (Inr f, st')
     \<and> call f [Num 3, Inst ''Complex'' [Num 0, Num 6]]
        = generalScan (candidatesOf testEnv defaultOptions (Times tagMethods) testState)
            [Num 3, Inst ''Complex'' [Num 0, Num 6]]
     \<and> call f [Num 3, Inst ''Complex'' [Num 0, Num 6]]
        = Inr (Inst ''complex'' [Inst ''Complex'' [Num 3, Num 0], Inst ''Complex'' [Num 0, Num 6]])"
proof -
  obtain f st' where c: "typed_function testEnv defaultOptions (Times tagMethods) testState = (Inr f, st')"
     "call f [Num 3, Inst ''Complex'' [Num 0, Num 6]]
         = Inr (tagMethods ''complex'' [Inst ''Complex'' [Num 3, Num 0], Inst ''Complex'' [Num 0, Num 6]])"
    using times_call[of tagMethods] by blast
  have "call f [Num 3, Inst ''Complex'' [Num 0, Num 6]]
        = generalScan (candidatesOf testEnv defaultOptions (Times tagMethods) testState)
            [Num 3, Inst ''Complex'' [Num 0, Num 6]]"
    using fast_paths_agree[OF c(1), of "[Num 3, Inst ''Complex'' [Num 0, Num 6]]"] c(2)
    by (auto simp: times_generalScan)
  then show ?thesis using c by (auto simp: tagMethods_def)
qed

text \<open>
  C3. One-hop expansion. When a parameter compiles, its array holds the declared types
  followed by the added types \<open>added\<close>, which are distinct and are exactly the \<open>fromType\<close>s
  of the conversions into a declared type that are not declared themselves. The converter
  table has the identity for every declared type and, for every added type, the converter
  of the first conversion into a declared type that starts from it. The slot is the union
  guard over one guard per type of the array, with the matcher over that table, or without
  matcher when nothing was added. Conversions into the added types are not followed.
\<close>

theorem one_hop_expansion:
  assumes "convertParamToUnion env options p st = (Inr (g, mo), st')"
  shows "\<exists>added acs gs.
       arrays st' p = arrays st p @ added
     \<and> expandTypes (conversionsOf st) (arrays st p)
         = (arrays st p @ added, map (\<lambda>t. I) (arrays st p) @ acs)
     \<and> length acs = length added \<and> distinct added
     \<and> set added = fromType ` (\<Union>t\<in>set (arrays st p). set (conversionsOf st t)) - set (arrays st p)
     \<and> (\<forall>j<length added. \<exists>e.
           find (\<lambda>e. fromType e = added ! j) (concat (map (conversionsOf st) (arrays st p))) = Some e
           \<and> convert e = acs ! j)
     \<and> length gs = length (arrays st p @ added) \<and> g = union_guard gs
     \<and> mo = (if added = [] then None
             else Some (matcher gs (map (\<lambda>t. I) (arrays st p) @ acs)))"
proof -
  obtain added acs where e:
     "expandTypes (conversionsOf st) (arrays st p) = (arrays st p @ added, map (\<lambda>t. I) (arrays st p) @ acs)"
     "length acs = length added" "distinct added"
     "set added = fromType ` (\<Union>t\<in>set (arrays st p). set (conversionsOf st t)) - set (arrays st p)"
     "\<forall>j<length added. \<exists>e.
           find (\<lambda>e. fromType e = added ! j) (concat (map (conversionsOf st) (arrays st p))) = Some e
           \<and> convert e = acs ! j"
    using expandTypes_shape[of "conversionsOf st" "arrays st p"] by blast
  have a: "arrays st' p = arrays st p @ added"
    using cp_arrays(1)[OF assms] e(1) by simp
  obtain gs where gs: "length gs = length (arrays st p @ added)" "g = union_guard gs"
     "mo = (if added = [] then None else Some (matcher gs (map (\<lambda>t. I) (arrays st p) @ acs)))"
    using cp_slot[OF assms] e(1) by auto
  show ?thesis using a e gs by blast
qed

text \<open>
  The instance: with conversions from \<open>Number\<close> to \<open>Complex\<close> and from \<open>String\<close> to
  \<open>Number\<close>, the parameter declared \<open>[Complex]\<close> becomes \<open>[Complex, Number]\<close>; \<open>String\<close>, two
  hops away, is not added.
\<close>

theorem one_hop_expansion_witness:
  "\<exists>g mo st'. convertParamToUnion testEnv defaultOptions 2 chainState = (Inr (g, mo), st')
      \<and> arrays chainState 2 = [ComplexClass]
      \<and> map fromType (conversionsOf chainState ComplexClass) = [Ctor ''Number'']
      \<and> map fromType (conversionsOf chainState (Ctor ''Number'')) = [Ctor ''String'']
      \<and> arrays st' 2 = [ComplexClass, Ctor ''Number'']
      \<and> (\<exists>added acs gs. arrays st' 2 = arrays chainState 2 @ added
            \<and> length acs = length added
            \<and> length gs = length (arrays chainState 2 @ added) \<and> g = union_guard gs
            \<and> mo = (if added = [] then None
                    else Some (matcher gs (map (\<lambda>t. I) (arrays chainState 2) @ acs))))"
proof -
  obtain g mo st' where c: "convertParamToUnion testEnv defaultOptions 2 chainState = (Inr (g, mo), st')"
     "arrays st' 2 = [ComplexClass, Ctor ''Number'']"
    using chain_param by blast
  have "\<exists>added acs gs. arrays st' 2 = arrays chainState 2 @ added
            \<and> length acs = length added
            \<and> length gs = length (arrays chainState 2 @ added) \<and> g = union_guard gs
            \<and> mo = (if added = [] then None
                    else Some (matcher gs (map (\<lambda>t. I) (arrays chainState 2) @ acs)))"
    using one_hop_expansion[OF c(1)] by blast
  then show ?thesis using c chain_edges
    by (intro exI[of _ g] exI[of _ mo] exI[of _ st']) simp
qed

text \<open>
  C4. With \<open>autoadd\<close> off, if a declared type of some parameter of the map, or a type
  one conversion away from one, has no guards, then \<open>function\<close> fails with the error
  \<open>Unknown type "name"\<close> for a token \<open>u\<close> that has no guards and that is in the array of a
  parameter of the map when the error is raised; no callable is returned. And a callable
  that \<open>function\<close> did return never answers a call with an \<open>Unknown type\<close> error.
\<close>

theorem unknown_type_at_compile:
  "(\<not> autoadd options \<longrightarrow> signatures target = Some m \<longrightarrow> p \<in> set (allParameters m) \<longrightarrow>
      t \<in> set (fst (expandTypes (conversionsOf st) (arrays st p))) \<longrightarrow> guards st t = None \<longrightarrow>
      (\<exists>u q. guards st u = None \<and> q \<in> set (allParameters m)
           \<and> u \<in> set (arrays (snd (typed_function env options target st)) q)
           \<and> fst (typed_function env options target st) = Inl (TypeError (''Unknown type \"'' @ getName u @ ''\"''))))
   \<and> (typed_function env options target st = (Inr f, st') \<longrightarrow>
        call f args \<noteq> Inl (TypeError (''Unknown type \"'' @ getName u' @ ''\"'')))"
proof (intro conjI impI)
  assume na: "\<not> autoadd options" and m: "signatures target = Some m"
    and p: "p \<in> set (allParameters m)"
    and t: "t \<in> set (fst (expandTypes (conversionsOf st) (arrays st p)))" "guards st t = None"
  obtain r st1 where v: "visit env options (allParameters m) st = (r, st1)"
    and tf: "case r of Some e \<Rightarrow> typed_function env options target st = (Inl e, st1)
          | None \<Rightarrow> (\<exists>f. typed_function env options target st = (Inr f, st1))
                   \<or> typed_function env options target st = (Inl EngineTypeError, st1)"
    using function_visit[OF m, of env options st] by blast
  show "\<exists>u q. guards st u = None \<and> q \<in> set (allParameters m)
           \<and> u \<in> set (arrays (snd (typed_function env options target st)) q)
           \<and> fst (typed_function env options target st) = Inl (TypeError (''Unknown type \"'' @ getName u @ ''\"''))"
  proof (cases r)
    case None
    then have "t \<in> set (arrays st1 p)" "\<forall>t\<in>set (arrays st1 p). guards st t \<noteq> None"
      using visit_noauto_ok[OF na] v p t(1) by blast+
    then show ?thesis using t(2) by blast
  next
    case (Some e)
    then obtain q u where "q \<in> set (allParameters m)" "u \<in> set (arrays st1 q)" "guards st u = None"
       "e = unknownType u"
      using visit_noauto_err[OF na] v by blast
    then show ?thesis using tf Some by (auto simp: unknownType_def)
  qed
next
  assume "typed_function env options target st = (Inr f, st')"
  then show "call f args \<noteq> Inl (TypeError (''Unknown type \"'' @ getName u' @ ''\"''))"
    using compiled_not_unknownType[of env options target st f st' args u'] by (simp add: unknownType_def)
qed

text \<open>
  The instance of the tests: the class \<open>SN\<close> over the unregistered class \<open>Foo\<close> fails to
  compile with \<open>Unknown type "Foo"\<close>; the function compiled from \<open>Times\<close> answers \<open>(3, "6")\<close>
  with another error.
\<close>

theorem unknown_type_at_compile_witness:
  "\<not> autoadd defaultOptions \<and> signatures fooTarget = Some [(''s'', [[4]])]
   \<and> 4 \<in> set (allParameters [(''s'', [[4]])])
   \<and> Ctor ''Foo'' \<in> set (fst (expandTypes (conversionsOf fooState) (arrays fooState 4)))
   \<and> guards fooState (Ctor ''Foo'') = None
   \<and> (\<exists>u. guards fooState u = None
         \<and> fst (typed_function testEnv defaultOptions fooTarget fooState)
             = Inl (TypeError (''Unknown type \"'' @ getName u @ ''\"'')))
   \<and> fst (typed_function testEnv defaultOptions fooTarget fooState) = Inl (TypeError ''Unknown type \"Foo\"'')
   \<and> (\<exists>f st'. typed_function testEnv defaultOptions (Times timesMethods) testState = (Inr f, st')
         \<and> call f [Num 3, Str ''6''] \<noteq> Inl (TypeError ''Unknown type \"String\"''))"
proof -
  have h: "\<not> autoadd defaultOptions" "signatures fooTarget = Some [(''s'', [[4]])]"
     "4 \<in> set (allParameters [(''s'', [[4]])])"
     "Ctor ''Foo'' \<in> set (fst (expandTypes (conversionsOf fooState) (arrays fooState 4)))"
     "guards fooState (Ctor ''Foo'') = None"
    by (simp_all add: fooTarget_def allParameters_def fooState_def expandTypes_def
          pushConversion_def ex_defs)
  obtain f st' where c: "typed_function testEnv defaultOptions (Times timesMethods) testState = (Inr f, st')"
    using times_call[of timesMethods] by blast
  have u1: "\<exists>u. guards fooState u = None
         \<and> fst (typed_function testEnv defaultOptions fooTarget fooState)
             = Inl (TypeError (''Unknown type \"'' @ getName u @ ''\"''))"
    using unknown_type_at_compile[where options = defaultOptions and target = fooTarget and st = fooState
        and env = testEnv and m = "[(''s'', [[4]])]" and p = 4 and t = "Ctor ''Foo''"] h by blast
  have u2: "call f [Num 3, Str ''6''] \<noteq> Inl (TypeError (''Unknown type \"'' @ getName (Ctor ''String'') @ ''\"''))"
    using unknown_type_at_compile[where options = defaultOptions and target = "Times timesMethods"
        and st = testState and env = testEnv and f = f] c by blast
  have e: "fst (typed_function testEnv defaultOptions fooTarget fooState) = Inl (TypeError ''Unknown type \"Foo\"'')"
    by (simp add: fooTarget_def fooState_def ex_defs compile_defs Let_def)
  have "call f [Num 3, Str ''6''] \<noteq> Inl (TypeError ''Unknown type \"String\"'')"
    using u2 by simp
  then show ?thesis using h e c u1 by blast
qed



text \<open>
  C7. The nullary case. If the map has at least one signature and all its signatures have
  no parameters, \<open>function\<close> succeeds without changing the state; the callable, called
  without arguments, returns what the method of the first signature returns, and called
  with one argument or more it fails with the error that no alternative matched.
\<close>

theorem nullary_dispatch:
  assumes "signatures target = Some m"
    and "\<forall>ks\<in>set (keyedSignatures m). snd ks = []"
    and "keyedSignatures m \<noteq> []"
  shows "\<exists>f. typed_function env options target st = (Inr f, st)
     \<and> call f [] = Inr (methods target (fst (hd (keyedSignatures m))) [])
     \<and> (\<forall>a as. call f (a # as) = Inl (TypeError ''No alternatives were matched''))"
proof -
  obtain minL' where l: "forInMap env options (methods target) m (0, \<infinity>, []) st =
     (Inr (0, minL', map (\<lambda>ks. (tuple [], (methods target (fst ks), Some (applier [])))) (keyedSignatures m)), st)"
    using forInMap_nullary[OF assms(2), of env options "methods target" 0 "\<infinity>" "[]" st] by auto
  obtain ks rest where k: "keyedSignatures m = ks # rest" using assms(3) by (cases "keyedSignatures m") auto
  show ?thesis using assms(1) l k
    by (simp add: typed_function_def makeFunction_def Let_def noAlternatives_def)
qed

text \<open>The instance: a class with one nullary signature.\<close>

theorem nullary_dispatch_witness:
  "signatures nullaryTarget = Some [(''s'', [[]])]
   \<and> keyedSignatures [(''s'', [[]])] = [(''s'', [])]
   \<and> (\<exists>f. typed_function testEnv defaultOptions nullaryTarget testState = (Inr f, testState)
        \<and> call f [] = Inr (Inst ''s'' [])
        \<and> call f [Num 1] = Inl (TypeError ''No alternatives were matched'')
        \<and> call f [Num 1, Str ''a''] = Inl (TypeError ''No alternatives were matched''))"
proof -
  have k: "keyedSignatures [(''s'', [[]])] = [(''s'', [])]" by (simp add: keyedSignatures_def)
  have h: "signatures nullaryTarget = Some [(''s'', [[]])]"
     "\<forall>ks\<in>set (keyedSignatures [(''s'', [[]])]). snd ks = []"
     "keyedSignatures [(''s'', [[]])] \<noteq> []"
    by (simp_all add: nullaryTarget_def k)
  obtain f where f: "typed_function testEnv defaultOptions nullaryTarget testState = (Inr f, testState)"
     "call f [] = Inr (methods nullaryTarget (fst (hd (keyedSignatures [(''s'', [[]])]))) [])"
     "\<forall>a as. call f (a # as) = Inl (TypeError ''No alternatives were matched'')"
    using nullary_dispatch[OF h, of testEnv defaultOptions testState] by blast
  have "call f [] = Inr (Inst ''s'' [])"
    using f(2) by (simp add: nullaryTarget_def k tagMethods_def)
  then show ?thesis using h(1) k f(1,3) by blast
qed

text \<open>
  C10. Compiling writes to its input. \<open>_convertParamToUnion\<close>, whether it succeeds or
  throws, leaves the expanded type list in the array it was given, which is the array the
  signature metadata holds. After a successful \<open>function\<close> the heap of arrays is the
  initial one with every parameter of the map expanded in place, in compilation order
  (each once, from its declared types, when no array is shared); the conversions are
  untouched. A second compilation takes this state as its input.
\<close>

theorem compile_mutates_declared_types:
  "(convertParamToUnion env options p st = (r, st1) \<longrightarrow>
       arrays st1 = (arrays st)(p := fst (expandTypes (conversionsOf st) (arrays st p))))
   \<and> (typed_function env options target st = (Inr f, st') \<longrightarrow> signatures target = Some m \<longrightarrow>
         arrays st' = fold (expandAt (conversionsOf st)) (allParameters m) (arrays st)
       \<and> conversions st' = conversions st
       \<and> (distinct (allParameters m) \<longrightarrow>
            (\<forall>q\<in>set (allParameters m). arrays st' q = fst (expandTypes (conversionsOf st) (arrays st q)))))"
proof (intro conjI impI)
  assume "convertParamToUnion env options p st = (r, st1)"
  then show "arrays st1 = (arrays st)(p := fst (expandTypes (conversionsOf st) (arrays st p)))"
    using cp_arrays(1) by blast
next
  assume a: "typed_function env options target st = (Inr f, st')" "signatures target = Some m"
  from visit_arrays[OF compiled_visit[OF a]]
  show "arrays st' = fold (expandAt (conversionsOf st)) (allParameters m) (arrays st)"
    and "conversions st' = conversions st" by simp_all
next
  assume a: "typed_function env options target st = (Inr f, st')" "signatures target = Some m"
    and d: "distinct (allParameters m)"
  from visit_arrays[OF compiled_visit[OF a]] fold_expandAt_distinct[OF d]
  show "\<forall>q\<in>set (allParameters m). arrays st' q = fst (expandTypes (conversionsOf st) (arrays st q))"
    by simp
qed

text \<open>
  The instance: compiling \<open>Times\<close> turns the parameter array \<open>[Complex]\<close> into
  \<open>[Complex, Number]\<close>. Compiling \<open>Times\<close> again from that state finds nothing to add,
  builds no matcher, and the second function hands the number \<open>3\<close> to \<open>complex\<close> as it is.
\<close>

theorem compile_mutates_declared_types_witness:
  "(\<exists>r st1. convertParamToUnion testEnv defaultOptions 2 testState = (r, st1)
       \<and> arrays testState 2 = [ComplexClass] \<and> arrays st1 2 = [ComplexClass, Ctor ''Number''])
   \<and> (\<exists>f st'. typed_function testEnv defaultOptions (Times tagMethods) testState = (Inr f, st')
     \<and> signatures (Times tagMethods) = Some timesMap
     \<and> distinct (allParameters timesMap) \<and> 2 \<in> set (allParameters timesMap)
     \<and> arrays testState 2 = [ComplexClass]
     \<and> arrays st' 2 = [ComplexClass, Ctor ''Number'']
     \<and> (\<exists>f2. typed_function testEnv defaultOptions (Times tagMethods) st' = (Inr f2, st')
           \<and> call f2 [Num 3, Inst ''Complex'' [Num 0, Num 6]]
               = Inr (Inst ''complex'' [Num 3, Inst ''Complex'' [Num 0, Num 6]])))"
proof -
  have e: "fst (expandTypes (conversionsOf testState) (arrays testState 2)) = [ComplexClass, Ctor ''Number'']"
    by (simp add: ex_defs expandTypes_def pushConversion_def)
  have a0: "arrays testState 2 = [ComplexClass]" by (simp add: testState_def timesArrays_def)
  obtain r st1 where p: "convertParamToUnion testEnv defaultOptions 2 testState = (r, st1)"
    using times_param by blast
  then have "arrays st1 = (arrays testState)(2 := fst (expandTypes (conversionsOf testState) (arrays testState 2)))"
    using compile_mutates_declared_types[THEN conjunct1] by blast
  then have a1: "arrays st1 2 = [ComplexClass, Ctor ''Number'']" using e by simp
  obtain f st' where c: "typed_function testEnv defaultOptions (Times tagMethods) testState = (Inr f, st')"
    using times_call[of tagMethods] by blast
  have s: "signatures (Times tagMethods) = Some timesMap" by (simp add: Times_def)
  have d: "distinct (allParameters timesMap)" "2 \<in> set (allParameters timesMap)"
    by (simp_all add: allParameters_def timesMap_def)
  have "arrays st' 2 = fst (expandTypes (conversionsOf testState) (arrays testState 2))"
    using compile_mutates_declared_types[THEN conjunct2, rule_format, OF c s] d by blast
  then have a2: "arrays st' 2 = [ComplexClass, Ctor ''Number'']" using e by simp
  have "st' = testState\<lparr>arrays := timesArrays2\<rparr>" using times_state[of tagMethods] c by simp
  then have "\<exists>f2. typed_function testEnv defaultOptions (Times tagMethods) st' = (Inr f2, st')
           \<and> call f2 [Num 3, Inst ''Complex'' [Num 0, Num 6]]
               = Inr (Inst ''complex'' [Num 3, Inst ''Complex'' [Num 0, Num 6]])"
    using times_second_call[of tagMethods] by (simp add: tagMethods_def)
  then show ?thesis using p a0 a1 c s d a2 by blast
qed

end
